theory Spec2Isabelle
  imports Main "HOL-Library.Word"
begin

unbundle bit_operations_syntax

section \<open>Data model of main.c\<close>

text \<open>
  main.c is the bootstrap of the window manager: it talks to three outside parties, the
  X server (through libxcb), the event loop (libev) and the operating system (file
  descriptors, signals, the file system). The embedding keeps one record of everything
  the file mutates, \<open>world\<close>, one record of everything it only reads from the outside,
  \<open>env\<close>, and a trace of the calls it makes to code that lives elsewhere.
  Memory management (\<open>free\<close>, \<open>scalloc\<close>) is not modelled.
\<close>

type_synonym fd = int
type_synonym signum = int

text \<open>\<open>xcb_generic_event_t\<close>: the fields main.c reads. For an X11 error packet
  (\<open>response_type = 0\<close>) the second byte is the error code.\<close>

record xcb_generic_event =
  response_type :: "8 word"
  pad0 :: "8 word"
  sequence :: "16 word"

record xcb_visualtype =
  visual_id :: "32 word"

record xcb_screen =
  root :: "32 word"
  screen_root_depth :: "8 word"
  default_colormap :: "32 word"

text \<open>The X connection as main.c sees it through libxcb: events already read into the
  library's buffer, and events that are readable at the socket but not read yet.\<close>

record xcb_connection =
  buffer :: "xcb_generic_event list"
  socket :: "xcb_generic_event list"

datatype callback =
    CB_xcb_got_event
  | CB_xcb_prepare_cb
  | CB_ipc_new_client
  | CB_handle_term_signal

text \<open>The watchers main.c creates: \<open>xcb_prepare\<close>, \<open>xcb_watcher\<close> and \<open>ipc_io\<close>
  (an \<open>ev_io\<close> each, with callback, descriptor and event mask), and the array
  \<open>signal_watchers\<close> (index, callback, signal number).\<close>

datatype watcher =
    Ev_prepare callback
  | Ev_io callback fd int
  | Ev_signal nat callback signum

text \<open>The state of a libev loop that main.c depends on: the active watchers of each
  kind, the stack of pending watchers (its head is invoked next) and the loop's
  reference count.\<close>

record ev_loop =
  prepares :: "watcher list"
  ios :: "watcher list"
  signals :: "watcher list"
  pendings :: "(watcher \<times> int) list"
  activecnt :: int

datatype sa_flag = SA_NODEFER | SA_RESETHAND | SA_SIGINFO

datatype sighandler = H_handle_core_signal | H_ev_sighandler

datatype disposition = SIG_DFL | SIG_IGN | Sigaction sighandler "sa_flag list"

datatype exit_fn = AtExit_i3_exit

text \<open>How the process ended, when it did.\<close>

datatype fate = Exited int | Killed signum | CoreDumped signum

text \<open>Calls into code outside main.c, in the order they are made.\<close>

datatype action =
    DLOG string
  | ELOG string
  | LOG string
  | HandleEvent int xcb_generic_event
  | XcbFlush
  | XcbGrabServer
  | XcbAuxSync
  | XcbUngrabServer
  | XcbDisconnect
  | XcbCreateColormap "32 word" "32 word" "32 word"
  | ManageExistingWindows "32 word"
  | TreeRestore string
  | TreeInit
  | Unlink string
  | Rmdir string
  | ShmUnlink string
  | IpcShutdown
  | IpcNewClientOnFd int
  | IpcConfirmRestart int
  | Raise signum
  | BackendPoll
  | EvLoopDestroy
  | EvLoop
  | Call string

record world =
  trace :: "action list"
  conn :: xcb_connection
  main_loop :: ev_loop
  fd_flags :: "fd \<rightharpoonup> nat"
  sigdisp :: "signum \<Rightarrow> disposition"
  raised :: "signum option"
  atexit_fns :: "exit_fn list"
  root_depth :: "8 word"
  colormap :: "32 word"
  visual_type :: "xcb_visualtype option"
  listen_fds :: int

text \<open>What main.c reads from the outside: results of calls into other files of the
  window manager (handlers.c, tree.c, libi3, sd-daemon.c, log.c), into libxcb and into
  libc. Each field is the result the call returns; the model makes no assumption on it.\<close>

record env =
  event_is_ignored :: "16 word \<Rightarrow> int \<Rightarrow> bool"
  x_server :: "int \<Rightarrow> xcb_generic_event \<Rightarrow> xcb_generic_event list"
  x_flush_reads :: "action list \<Rightarrow> xcb_generic_event list option"
  shmlogname :: string
  ipc_socket_path :: string
  conn_has_error :: bool
  ev_default_ok :: bool
  root_screen :: xcb_screen
  find_visual_32 :: "xcb_visualtype option"
  depth_of_visual :: "32 word \<Rightarrow> 8 word"
  generated_id :: "32 word"
  colormap_error :: "8 word option"
  get_visualtype :: "xcb_screen \<Rightarrow> xcb_visualtype"
  atom_replies_ok :: bool
  wm_check_error :: "8 word option"
  geometry_reply_ok :: bool
  load_keymap_ok :: bool
  tree_restore :: "string \<Rightarrow> bool"
  dirname :: "string \<Rightarrow> string"
  ipc_create_socket :: "string \<Rightarrow> int"
  sd_listen_fds :: "int \<Rightarrow> int"
  getenv :: "string \<Rightarrow> string option"
  parse_long :: "string \<Rightarrow> int \<Rightarrow> bool \<times> 64 word"

definition emit :: "action \<Rightarrow> world \<Rightarrow> world" where
  "emit a w = w\<lparr>trace := trace w @ [a]\<rparr>"

section \<open>libxcb, as main.c uses it\<close>

text \<open>\<open>xcb_poll_for_event\<close> never blocks: it returns the next buffered event, reads
  whatever the socket holds when the buffer is empty, and returns NULL (\<open>None\<close>) when
  both are empty.\<close>

definition xcb_poll_for_event :: "world \<Rightarrow> xcb_generic_event option \<times> world" where
  "xcb_poll_for_event w =
     (case buffer (conn w) of
        e # es \<Rightarrow> (Some e, w\<lparr>conn := (conn w)\<lparr>buffer := es\<rparr>\<rparr>)
      | [] \<Rightarrow>
         (case socket (conn w) of
            [] \<Rightarrow> (None, w)
          | e # es \<Rightarrow> (Some e, w\<lparr>conn := (conn w)\<lparr>buffer := es, socket := []\<rparr>\<rparr>)))"

text \<open>\<open>xcb_flush\<close> writes the queued requests. While it has something to write it also
  reads: whatever is at the socket, and whatever arrives there in the meantime, goes into
  the library's buffer. \<open>x_flush_reads\<close> gives, after the calls made so far, \<open>None\<close>
  when the call has nothing to write and so reads nothing, and otherwise the events that
  arrive while it writes. An event that arrives at any earlier moment is, for the code,
  the same as one that is at the socket already.\<close>

definition xcb_flush :: "env \<Rightarrow> world \<Rightarrow> world" where
  "xcb_flush env w =
     emit XcbFlush
       (case x_flush_reads env (trace w) of
          None \<Rightarrow> w
        | Some arrived \<Rightarrow>
            w\<lparr>conn := \<lparr>buffer = buffer (conn w) @ socket (conn w) @ arrived,
                       socket = []\<rparr>\<rparr>)"

text \<open>\<open>xcb_aux_sync\<close> is a round trip: when it returns, everything the server had sent
  before its reply has been read into the library's buffer.\<close>

definition xcb_aux_sync :: "world \<Rightarrow> world" where
  "xcb_aux_sync w =
     emit XcbAuxSync
       (w\<lparr>conn := (conn w)\<lparr>buffer := buffer (conn w) @ socket (conn w), socket := []\<rparr>\<rparr>)"

text \<open>\<open>handle_event\<close> is defined in handlers.c. Here it is a call recorded in the trace;
  the events the server sends while it runs become readable at the socket.\<close>

definition handle_event :: "env \<Rightarrow> int \<Rightarrow> xcb_generic_event \<Rightarrow> world \<Rightarrow> world" where
  "handle_event env type event w =
     (emit (HandleEvent type event) w)
       \<lparr>conn := (conn w)\<lparr>socket := socket (conn w) @ x_server env type event\<rparr>\<rparr>"

definition XCB_MAP_REQUEST :: int where
  "XCB_MAP_REQUEST = 20"

section \<open>The drain callback\<close>

text \<open>The \<open>while\<close> loop of \<open>xcb_prepare_cb\<close>. It runs for as long as
  \<open>xcb_poll_for_event\<close> returns an event, so it need not return: \<open>None\<close> is the loop
  that runs forever.\<close>

partial_function (option) xcb_prepare_loop :: "env \<Rightarrow> world \<Rightarrow> world option" where
  "xcb_prepare_loop env w =
     (case xcb_poll_for_event w of
        (None, w') \<Rightarrow> Some w'
      | (Some event, w') \<Rightarrow>
          if response_type event = 0 then
            xcb_prepare_loop env
              (if event_is_ignored env (sequence event) 0
               then emit (DLOG ''Expected X11 Error received'') w'
               else emit (DLOG ''X11 Error received (probably harmless)!'') w')
          else
            xcb_prepare_loop env
              (handle_event env (uint (response_type event AND 0x7F)) event w'))"

definition xcb_prepare_cb :: "env \<Rightarrow> int \<Rightarrow> world \<Rightarrow> world option" where
  "xcb_prepare_cb env revents w = map_option (xcb_flush env) (xcb_prepare_loop env w)"

definition xcb_got_event :: "int \<Rightarrow> world \<Rightarrow> world" where
  "xcb_got_event revents w = w"

section \<open>Process exit\<close>

text \<open>\<open>i3_exit\<close>, the handler main registers with \<open>atexit\<close>. The embedding takes
  libev 4 (\<open>EV_VERSION_MAJOR >= 4\<close>) and a build without the address sanitizer.\<close>

definition i3_exit :: "env \<Rightarrow> world \<Rightarrow> world" where
  "i3_exit env w =
     (let w1 = (if shmlogname env \<noteq> []
                then emit (ShmUnlink (shmlogname env))
                       (emit (Call ''fprintf(stderr, Closing SHM log)'') w)
                else w);
          w2 = emit IpcShutdown w1;
          w3 = emit (Unlink (ipc_socket_path env)) w2;
          w4 = emit XcbDisconnect w3
      in emit EvLoopDestroy w4)"

definition run_exit_fn :: "env \<Rightarrow> exit_fn \<Rightarrow> world \<Rightarrow> world" where
  "run_exit_fn env f w = (case f of AtExit_i3_exit \<Rightarrow> i3_exit env w)"

text \<open>libc: \<open>atexit\<close> registers a function, \<open>exit\<close> calls the registered functions in
  the reverse order of their registration and ends the process.\<close>

definition atexit :: "exit_fn \<Rightarrow> world \<Rightarrow> world" where
  "atexit f w = w\<lparr>atexit_fns := f # atexit_fns w\<rparr>"

definition exit_process :: "env \<Rightarrow> int \<Rightarrow> world \<Rightarrow> fate \<times> world" where
  "exit_process env status w = (Exited status, fold (run_exit_fn env) (atexit_fns w) w)"

definition EXIT_FAILURE :: int where
  "EXIT_FAILURE = 1"

section \<open>libev, as main.c uses it\<close>

text \<open>The loop operations follow libev's documentation and its ev.c. Every watcher of
  main.c has the default priority, so one stack of pending watchers suffices.\<close>

definition ev_is_active :: "ev_loop \<Rightarrow> watcher \<Rightarrow> bool" where
  "ev_is_active l wt = (wt \<in> set (prepares l) \<or> wt \<in> set (ios l) \<or> wt \<in> set (signals l))"

definition ev_is_pending :: "ev_loop \<Rightarrow> watcher \<Rightarrow> bool" where
  "ev_is_pending l wt = (wt \<in> fst ` set (pendings l))"

definition clear_pending :: "ev_loop \<Rightarrow> watcher \<Rightarrow> ev_loop" where
  "clear_pending l wt = l\<lparr>pendings := filter (\<lambda>p. fst p \<noteq> wt) (pendings l)\<rparr>"

definition ev_prepare_start :: "ev_loop \<Rightarrow> watcher \<Rightarrow> ev_loop" where
  "ev_prepare_start l wt =
     (if ev_is_active l wt then l
      else l\<lparr>prepares := prepares l @ [wt], activecnt := activecnt l + 1\<rparr>)"

definition ev_prepare_stop :: "ev_loop \<Rightarrow> watcher \<Rightarrow> ev_loop" where
  "ev_prepare_stop l wt =
     (let l' = clear_pending l wt in
      if \<not> ev_is_active l' wt then l'
      else l'\<lparr>prepares := removeAll wt (prepares l'), activecnt := activecnt l' - 1\<rparr>)"

definition ev_feed_event :: "ev_loop \<Rightarrow> watcher \<Rightarrow> int \<Rightarrow> ev_loop" where
  "ev_feed_event l wt revents =
     (if ev_is_pending l wt
      then l\<lparr>pendings :=
             map (\<lambda>p. if fst p = wt then (wt, snd p OR revents) else p) (pendings l)\<rparr>
      else l\<lparr>pendings := (wt, revents) # pendings l\<rparr>)"

definition ev_io_start :: "ev_loop \<Rightarrow> watcher \<Rightarrow> ev_loop" where
  "ev_io_start l wt =
     (if ev_is_active l wt then l
      else l\<lparr>ios := ios l @ [wt], activecnt := activecnt l + 1\<rparr>)"

definition ev_unref :: "ev_loop \<Rightarrow> ev_loop" where
  "ev_unref l = l\<lparr>activecnt := activecnt l - 1\<rparr>"

text \<open>Starting a signal watcher also makes libev's own handler the disposition of the
  signal.\<close>

definition ev_signal_start :: "world \<Rightarrow> watcher \<Rightarrow> world" where
  "ev_signal_start w wt =
     (if ev_is_active (main_loop w) wt then w
      else (case wt of
              Ev_signal i cb sig \<Rightarrow>
                w\<lparr>main_loop := (main_loop w)\<lparr>signals := signals (main_loop w) @ [wt],
                                              activecnt := activecnt (main_loop w) + 1\<rparr>,
                  sigdisp := (sigdisp w)(sig := Sigaction H_ev_sighandler [])\<rparr>
            | _ \<Rightarrow> w))"

definition EV_READ :: int where
  "EV_READ = 1"

definition EV_SIGNAL :: int where
  "EV_SIGNAL = 0x400"

definition EV_PREPARE :: int where
  "EV_PREPARE = 0x4000"

section \<open>The callbacks of main.c\<close>

definition watcher_signum :: "watcher \<Rightarrow> signum" where
  "watcher_signum wt = (case wt of Ev_signal i cb sig \<Rightarrow> sig | _ \<Rightarrow> 0)"

definition handle_term_signal :: "env \<Rightarrow> watcher \<Rightarrow> int \<Rightarrow> world \<Rightarrow> fate \<times> world" where
  "handle_term_signal env signal revents w = exit_process env (128 + watcher_signum signal) w"

definition watcher_cb :: "watcher \<Rightarrow> callback" where
  "watcher_cb wt = (case wt of Ev_prepare cb \<Rightarrow> cb | Ev_io cb f ev \<Rightarrow> cb | Ev_signal i cb sig \<Rightarrow> cb)"

text \<open>Invoking a watcher runs its callback. \<open>ipc_new_client\<close> is defined in ipc.c and
  is a call in the trace.\<close>

definition invoke :: "env \<Rightarrow> watcher \<Rightarrow> int \<Rightarrow> world \<Rightarrow> (fate \<times> world + world) option" where
  "invoke env wt revents w =
     (case watcher_cb wt of
        CB_xcb_got_event \<Rightarrow> Some (Inr (xcb_got_event revents w))
      | CB_xcb_prepare_cb \<Rightarrow> map_option Inr (xcb_prepare_cb env revents w)
      | CB_ipc_new_client \<Rightarrow> Some (Inr (emit (Call ''ipc_new_client'') w))
      | CB_handle_term_signal \<Rightarrow> Some (Inl (handle_term_signal env wt revents w)))"

text \<open>\<open>ev_invoke_pending\<close>: pop the pending stack and invoke, until it is empty.\<close>

partial_function (option) ev_invoke_pending :: "env \<Rightarrow> world \<Rightarrow> (fate \<times> world + world) option" where
  "ev_invoke_pending env w =
     (case pendings (main_loop w) of
        [] \<Rightarrow> Some (Inr w)
      | p # ps \<Rightarrow>
          (case invoke env (fst p) (snd p) (w\<lparr>main_loop := (main_loop w)\<lparr>pendings := ps\<rparr>\<rparr>) of
             None \<Rightarrow> None
           | Some (Inl dead) \<Rightarrow> Some (Inl dead)
           | Some (Inr w') \<Rightarrow> ev_invoke_pending env w'))"

definition queue_events :: "ev_loop \<Rightarrow> watcher list \<Rightarrow> int \<Rightarrow> ev_loop" where
  "queue_events l ws type = fold (\<lambda>wt l'. ev_feed_event l' wt type) ws l"

definition backend_poll :: "world \<Rightarrow> world" where
  "backend_poll w = emit BackendPoll w"

text \<open>One iteration of \<open>ev_run\<close> up to and including its blocking wait: queue and call
  all prepare watchers, then block.\<close>

definition ev_run_until_block :: "env \<Rightarrow> world \<Rightarrow> (fate \<times> world + world) option" where
  "ev_run_until_block env w =
     (case ev_invoke_pending env
             (w\<lparr>main_loop := queue_events (main_loop w) (prepares (main_loop w)) EV_PREPARE\<rparr>) of
        None \<Rightarrow> None
      | Some (Inl dead) \<Rightarrow> Some (Inl dead)
      | Some (Inr w') \<Rightarrow> Some (Inr (backend_poll w')))"

section \<open>Enabling and disabling the drain source\<close>

definition xcb_prepare :: watcher where
  "xcb_prepare = Ev_prepare CB_xcb_prepare_cb"

definition main_set_x11_cb :: "bool \<Rightarrow> world \<Rightarrow> world" where
  "main_set_x11_cb enable w =
     (let w1 = emit (DLOG ''Setting main X11 callback to enabled'') w in
      if enable then
        (let w2 = w1\<lparr>main_loop := ev_prepare_start (main_loop w1) xcb_prepare\<rparr>
         in w2\<lparr>main_loop := ev_feed_event (main_loop w2) xcb_prepare 0\<rparr>)
      else w1\<lparr>main_loop := ev_prepare_stop (main_loop w1) xcb_prepare\<rparr>)"

section \<open>Signals, as the operating system delivers them\<close>

text \<open>Signal numbers of Linux on x86 and ARM, and the default actions of signal(7).\<close>

definition SIGHUP :: signum where "SIGHUP = 1"
definition SIGINT :: signum where "SIGINT = 2"
definition SIGQUIT :: signum where "SIGQUIT = 3"
definition SIGILL :: signum where "SIGILL = 4"
definition SIGABRT :: signum where "SIGABRT = 6"
definition SIGBUS :: signum where "SIGBUS = 7"
definition SIGFPE :: signum where "SIGFPE = 8"
definition SIGKILL :: signum where "SIGKILL = 9"
definition SIGUSR1 :: signum where "SIGUSR1 = 10"
definition SIGSEGV :: signum where "SIGSEGV = 11"
definition SIGUSR2 :: signum where "SIGUSR2 = 12"
definition SIGPIPE :: signum where "SIGPIPE = 13"
definition SIGALRM :: signum where "SIGALRM = 14"
definition SIGTERM :: signum where "SIGTERM = 15"
definition SIGSTOP :: signum where "SIGSTOP = 19"

datatype default_action = Term | Core | Ign | Stop | Cont

definition signal_default :: "signum \<Rightarrow> default_action" where
  "signal_default sig =
     (if sig \<in> set [3, 4, 5, 6, 7, 8, 11, 24, 25, 31] then Core
      else if sig \<in> set [17, 23, 28] then Ign
      else if sig \<in> set [19, 20, 21, 22] then Stop
      else if sig = 18 then Cont
      else Term)"

text \<open>\<open>sigaction\<close> and \<open>signal\<close> fail for a number that is no signal and for SIGKILL and
  SIGSTOP; otherwise they set the disposition.\<close>

definition sigaction :: "signum \<Rightarrow> disposition \<Rightarrow> world \<Rightarrow> int \<times> world" where
  "sigaction sig act w =
     (if sig < 1 \<or> 64 < sig \<or> sig = SIGKILL \<or> sig = SIGSTOP then (- 1, w)
      else (0, w\<lparr>sigdisp := (sigdisp w)(sig := act)\<rparr>))"

definition raise_signal :: "signum \<Rightarrow> world \<Rightarrow> world" where
  "raise_signal sig w = (emit (Raise sig) w)\<lparr>raised := Some sig\<rparr>"

definition shm_unlink :: "string \<Rightarrow> world \<Rightarrow> world" where
  "shm_unlink name w = emit (ShmUnlink name) w"

definition handle_core_signal :: "env \<Rightarrow> signum \<Rightarrow> world \<Rightarrow> world" where
  "handle_core_signal env sig w =
     raise_signal sig (if shmlogname env \<noteq> [] then shm_unlink (shmlogname env) w else w)"

text \<open>libev's own signal handler makes the watchers of the signal pending; the loop
  invokes them in its next pass.\<close>

definition run_sighandler :: "env \<Rightarrow> sighandler \<Rightarrow> signum \<Rightarrow> world \<Rightarrow> world" where
  "run_sighandler env h sig w =
     (case h of
        H_handle_core_signal \<Rightarrow> handle_core_signal env sig w
      | H_ev_sighandler \<Rightarrow>
          w\<lparr>main_loop :=
              queue_events (main_loop w)
                (filter (\<lambda>wt. watcher_signum wt = sig) (signals (main_loop w))) EV_SIGNAL\<rparr>)"

text \<open>Delivery of a signal to the process. A handler installed with \<open>SA_RESETHAND\<close> has
  the disposition reset to the default before it runs. A signal the handler raises is
  delivered in turn (at once under \<open>SA_NODEFER\<close>, when the handler returns otherwise).
  \<open>Inl\<close> is the end of the process; a process a signal kills runs no exit handler.\<close>

partial_function (option) deliver_signal ::
  "env \<Rightarrow> signum \<Rightarrow> world \<Rightarrow> (fate \<times> world + world) option" where
  "deliver_signal env sig w =
     (case sigdisp w sig of
        SIG_IGN \<Rightarrow> Some (Inr w)
      | SIG_DFL \<Rightarrow>
          Some (case signal_default sig of
                  Term \<Rightarrow> Inl (Killed sig, w)
                | Core \<Rightarrow> Inl (CoreDumped sig, w)
                | _ \<Rightarrow> Inr w)
      | Sigaction h flags \<Rightarrow>
          (let w1 = (if SA_RESETHAND \<in> set flags
                     then w\<lparr>sigdisp := (sigdisp w)(sig := SIG_DFL)\<rparr> else w);
               w2 = run_sighandler env h sig w1
           in case raised w2 of
                None \<Rightarrow> Some (Inr w2)
              | Some s \<Rightarrow> deliver_signal env s (w2\<lparr>raised := None\<rparr>)))"

text \<open>write(2) to a socket whose peer has closed: the process receives SIGPIPE and, when
  it survives, the call returns \<open>-1\<close> (EPIPE).\<close>

definition write_to_closed_peer :: "env \<Rightarrow> world \<Rightarrow> (fate \<times> world + int \<times> world) option" where
  "write_to_closed_peer env w =
     (case deliver_signal env SIGPIPE w of
        None \<Rightarrow> None
      | Some (Inl dead) \<Rightarrow> Some (Inl dead)
      | Some (Inr w') \<Rightarrow> Some (Inr (- 1, w')))"

section \<open>Handlers for the terminating signals\<close>

definition signal_watchers :: "watcher list" where
  "signal_watchers =
     [Ev_signal 0 CB_handle_term_signal SIGHUP,
      Ev_signal 1 CB_handle_term_signal SIGINT,
      Ev_signal 2 CB_handle_term_signal SIGALRM,
      Ev_signal 3 CB_handle_term_signal SIGTERM,
      Ev_signal 4 CB_handle_term_signal SIGUSR1,
      Ev_signal 5 CB_handle_term_signal SIGUSR1]"

definition setup_term_handlers :: "world \<Rightarrow> world" where
  "setup_term_handlers w =
     fold (\<lambda>wt w'. (let w1 = ev_signal_start w' wt
                   in w1\<lparr>main_loop := ev_unref (main_loop w1)\<rparr>))
       signal_watchers w"

section \<open>The restart descriptor\<close>

text \<open>\<open>parse_long\<close> is defined in libi3: it returns whether the string parsed and the
  value it stored. \<open>parse_restart_fd\<close> returns the \<open>long\<close> as an \<open>int\<close>.\<close>

definition parse_restart_fd :: "env \<Rightarrow> world \<Rightarrow> int \<times> world" where
  "parse_restart_fd env w =
     (case getenv env ''_I3_RESTART_FD'' of
        None \<Rightarrow> (- 1, w)
      | Some restart_fd \<Rightarrow>
          (case parse_long env restart_fd 10 of
             (ok, fd) \<Rightarrow>
               if \<not> ok then (- 1, emit (ELOG ''Malformed _I3_RESTART_FD'') w)
               else (sint (ucast fd :: 32 word), w)))"

section \<open>main\<close>

text \<open>The command line, as the \<open>getopt_long\<close> loop of \<open>main\<close> leaves it: \<open>-a\<close> clears
  \<open>autostart\<close>; \<open>-L path\<close> sets \<open>layout_path\<close> and clears \<open>delete_layout_path\<close>;
  \<open>--restart path\<close> sets both; \<open>--disable-signalhandler\<close> sets
  \<open>disable_signalhandler\<close>. The loop itself, the options that only print and exit, and
  the mode that sends the arguments to a running instance are not modelled.\<close>

record options =
  autostart :: bool
  layout_path :: "string option"
  delete_layout_path :: bool
  disable_signalhandler :: bool

type_synonym outcome = "(fate \<times> world + world) option"

definition continue :: "world \<Rightarrow> outcome" where
  "continue w = Some (Inr w)"

definition call :: "string \<Rightarrow> world \<Rightarrow> outcome" where
  "call name w = continue (emit (Call name) w)"

text \<open>\<open>errx\<close>, \<open>die\<close> and \<open>return\<close> from \<open>main\<close> all end in \<open>exit\<close>.\<close>

definition exit_with :: "env \<Rightarrow> int \<Rightarrow> string \<Rightarrow> world \<Rightarrow> outcome" where
  "exit_with env status msg w = Some (Inl (exit_process env status (emit (ELOG msg) w)))"

fun run_steps :: "(world \<Rightarrow> outcome) list \<Rightarrow> world \<Rightarrow> outcome" where
  "run_steps [] w = continue w"
| "run_steps (step # steps) w =
     (case step w of
        None \<Rightarrow> None
      | Some (Inl dead) \<Rightarrow> Some (Inl dead)
      | Some (Inr w') \<Rightarrow> run_steps steps w')"

subsection \<open>Connecting (lines 535 to 549)\<close>

definition main_connect :: "env \<Rightarrow> world \<Rightarrow> outcome" where
  "main_connect env w =
     (let w1 = emit (Call ''xcb_connect'') w in
      if conn_has_error env then exit_with env EXIT_FAILURE ''Cannot open display'' w1
      else
        (let w2 = emit (Call ''sn_xcb_display_new'') w1 in
         if \<not> ev_default_ok env
         then exit_with env EXIT_FAILURE ''Could not initialize libev. Bad LIBEV_FLAGS?'' w2
         else call ''xcb_aux_get_screen'' w2))"

subsection \<open>Depth, visual and colormap (lines 557 to 577)\<close>

definition main_visual :: "env \<Rightarrow> world \<Rightarrow> outcome" where
  "main_visual env w =
     (let w1 = w\<lparr>root_depth := screen_root_depth (root_screen env),
                 colormap := default_colormap (root_screen env),
                 visual_type := find_visual_32 env\<rparr>
      in case visual_type w1 of
           Some vt \<Rightarrow>
             (let w2 = w1\<lparr>root_depth := depth_of_visual env (visual_id vt),
                          colormap := generated_id env\<rparr>;
                  w3 = emit (XcbCreateColormap (colormap w2) (root (root_screen env))
                               (visual_id vt)) w2
              in case colormap_error env of
                   Some error_code \<Rightarrow>
                     exit_with env EXIT_FAILURE ''Could not create colormap. Error code'' w3
                 | None \<Rightarrow> continue w3)
         | None \<Rightarrow>
             continue (w1\<lparr>visual_type := Some (get_visualtype env (root_screen env))\<rparr>))"

subsection \<open>Atoms, configuration, the root window (lines 579 to 740)\<close>

definition main_atoms :: "env \<Rightarrow> world \<Rightarrow> outcome" where
  "main_atoms env w =
     (if \<not> atom_replies_ok env then exit_with env (- 1) ''Could not get atom'' w
      else call ''load_configuration'' w)"

definition main_become_wm :: "env \<Rightarrow> world \<Rightarrow> outcome" where
  "main_become_wm env w =
     (let w1 = emit (Call ''xcb_change_window_attributes_checked'') w in
      case wm_check_error env of
        Some error_code \<Rightarrow>
          exit_with env 1 ''Another window manager seems to be running'' w1
      | None \<Rightarrow>
          if \<not> geometry_reply_ok env
          then exit_with env 1 ''Could not get geometry of the root window, exiting'' w1
          else continue w1)"

definition main_keymap :: "env \<Rightarrow> world \<Rightarrow> outcome" where
  "main_keymap env w =
     (if \<not> load_keymap_ok env then exit_with env EXIT_FAILURE ''Could not load keymap'' w
      else call ''translate_keysyms, grab_all_keys'' w)"

subsection \<open>Restoring or building the tree (lines 742 to 755)\<close>

definition main_tree :: "env \<Rightarrow> options \<Rightarrow> world \<Rightarrow> world" where
  "main_tree env opts w =
     (case (case layout_path opts of
              None \<Rightarrow> (True, w)
            | Some path \<Rightarrow>
                (let w1 = emit (LOG ''Trying to restore the layout'') w;
                     w2 = emit (TreeRestore path) w1;
                     needs_tree_init = (\<not> tree_restore env path);
                     w3 = (if delete_layout_path opts
                           then emit (Rmdir (dirname env path)) (emit (Unlink path) w2)
                           else w2)
                 in (needs_tree_init, w3))) of
        (needs_tree_init, w') \<Rightarrow> if needs_tree_init then emit TreeInit w' else w')"

subsection \<open>The IPC socket and socket activation (lines 826 to 863)\<close>

definition FD_CLOEXEC :: int where
  "FD_CLOEXEC = 1"

definition SD_LISTEN_FDS_START :: int where
  "SD_LISTEN_FDS_START = 3"

text \<open>\<open>fcntl\<close> on the descriptor flags fails (\<open>-1\<close>, EBADF) exactly for a descriptor
  that is not open.\<close>

definition fcntl_GETFD :: "world \<Rightarrow> fd \<Rightarrow> int" where
  "fcntl_GETFD w f = (case fd_flags w f of None \<Rightarrow> - 1 | Some fl \<Rightarrow> int fl)"

definition fcntl_SETFD :: "world \<Rightarrow> fd \<Rightarrow> int \<Rightarrow> int \<times> world" where
  "fcntl_SETFD w f fl =
     (case fd_flags w f of
        None \<Rightarrow> (- 1, w)
      | Some old \<Rightarrow> (0, w\<lparr>fd_flags := (fd_flags w)(f \<mapsto> nat fl)\<rparr>))"

definition main_ipc_socket :: "env \<Rightarrow> world \<Rightarrow> world" where
  "main_ipc_socket env w =
     (let ipc_socket = ipc_create_socket env (ipc_socket_path env) in
      if ipc_socket = - 1
      then emit (ELOG ''Could not create the IPC socket, IPC disabled'') w
      else w\<lparr>main_loop := ev_io_start (main_loop w) (Ev_io CB_ipc_new_client ipc_socket EV_READ)\<rparr>)"

text \<open>The body of the \<open>for\<close> loop over the passed descriptors.\<close>

definition listen_on :: "fd \<Rightarrow> world \<Rightarrow> world" where
  "listen_on f w =
     (let w1 = emit (DLOG ''socket activation: also listening on fd'') w;
          flags = fcntl_GETFD w1 f;
          w2 = (if flags < 0
                then emit (ELOG ''Could not disable FD_CLOEXEC on fd'') w1
                else (case fcntl_SETFD w1 f (flags AND NOT FD_CLOEXEC) of
                        (r, w') \<Rightarrow>
                          if r < 0 then emit (ELOG ''Could not disable FD_CLOEXEC on fd'') w'
                          else w'))
      in w2\<lparr>main_loop := ev_io_start (main_loop w2) (Ev_io CB_ipc_new_client f EV_READ)\<rparr>)"

function listen_loop :: "fd \<Rightarrow> fd \<Rightarrow> world \<Rightarrow> world" where
  "listen_loop f bound w = (if f < bound then listen_loop (f + 1) bound (listen_on f w) else w)"
  by pat_completeness auto
termination
  by (relation "measure (\<lambda>(f, bound, w). nat (bound - f))") auto

definition main_socket_activation :: "env \<Rightarrow> world \<Rightarrow> world" where
  "main_socket_activation env w =
     (let w1 = w\<lparr>listen_fds := sd_listen_fds env 0\<rparr> in
      if listen_fds w1 < 0 then emit (ELOG ''socket activation: Error in sd_listen_fds'') w1
      else if listen_fds w1 = 0 then emit (DLOG ''socket activation: no sockets passed'') w1
      else listen_loop SD_LISTEN_FDS_START (SD_LISTEN_FDS_START + listen_fds w1) w1)"

text \<open>\<open>execve\<close> closes the descriptors that have close-on-exec set and keeps the others.\<close>

definition execve_fds :: "(fd \<rightharpoonup> nat) \<Rightarrow> (fd \<rightharpoonup> nat)" where
  "execve_fds fds =
     (\<lambda>f. case fds f of
            None \<Rightarrow> None
          | Some fl \<Rightarrow> if int fl AND FD_CLOEXEC \<noteq> 0 then None else Some fl)"

subsection \<open>The restart descriptor (lines 865 to 872)\<close>

definition main_restart_fd :: "env \<Rightarrow> world \<Rightarrow> world" where
  "main_restart_fd env w =
     (case parse_restart_fd env w of
        (restart_fd, w1) \<Rightarrow>
          if restart_fd \<noteq> - 1 then
            emit (IpcConfirmRestart restart_fd)
              (emit (IpcNewClientOnFd restart_fd) (emit (DLOG ''serving restart fd'') w1))
          else w1)"

subsection \<open>Arming the X11 watchers (lines 881 to 890)\<close>

definition xcb_watcher :: "fd \<Rightarrow> watcher" where
  "xcb_watcher xcb_fd = Ev_io CB_xcb_got_event xcb_fd EV_READ"

definition main_arm_x11 :: "env \<Rightarrow> fd \<Rightarrow> world \<Rightarrow> world" where
  "main_arm_x11 env xcb_fd w =
     (let w1 = w\<lparr>main_loop := ev_io_start (main_loop w) (xcb_watcher xcb_fd)\<rparr>;
          w2 = w1\<lparr>main_loop := ev_prepare_start (main_loop w1) xcb_prepare\<rparr>
      in xcb_flush env w2)"

subsection \<open>Managing the existing windows (lines 905 to 928)\<close>

partial_function (option) main_discard_loop :: "env \<Rightarrow> world \<Rightarrow> world option" where
  "main_discard_loop env w =
     (case xcb_poll_for_event w of
        (None, w') \<Rightarrow> Some w'
      | (Some event, w') \<Rightarrow>
          if response_type event = 0 then main_discard_loop env w'
          else if uint (response_type event AND 0x7F) = XCB_MAP_REQUEST
          then main_discard_loop env
                 (handle_event env (uint (response_type event AND 0x7F)) event w')
          else main_discard_loop env w')"

definition main_manage_existing :: "env \<Rightarrow> world \<Rightarrow> outcome" where
  "main_manage_existing env w =
     (case main_discard_loop env (xcb_aux_sync (emit XcbGrabServer w)) of
        None \<Rightarrow> None
      | Some w1 \<Rightarrow>
          continue (emit XcbUngrabServer
                      (emit (ManageExistingWindows (root (root_screen env))) w1)))"

subsection \<open>Signals (lines 956 to 977)\<close>

definition core_action :: disposition where
  "core_action = Sigaction H_handle_core_signal [SA_NODEFER, SA_RESETHAND, SA_SIGINFO]"

text \<open>The chain of \<open>sigaction\<close> calls joined by \<open>||\<close>: a failing call skips the rest.\<close>

fun sigaction_chain :: "signum list \<Rightarrow> disposition \<Rightarrow> world \<Rightarrow> bool \<times> world" where
  "sigaction_chain [] act w = (False, w)"
| "sigaction_chain (sig # sigs) act w =
     (case sigaction sig act w of
        (r, w') \<Rightarrow> if r = - 1 then (True, w') else sigaction_chain sigs act w')"

definition main_core_handlers :: "options \<Rightarrow> world \<Rightarrow> world" where
  "main_core_handlers opts w =
     (if \<not> disable_signalhandler opts then emit (Call ''setup_signal_handler'') w
      else (case sigaction_chain [SIGQUIT, SIGILL, SIGABRT, SIGFPE, SIGSEGV] core_action w of
              (failed, w') \<Rightarrow>
                if failed then emit (ELOG ''Could not setup signal handler.'') w' else w'))"

definition main_signals :: "options \<Rightarrow> world \<Rightarrow> world" where
  "main_signals opts w =
     snd (sigaction SIGPIPE SIG_IGN (setup_term_handlers (main_core_handlers opts w)))"

subsection \<open>Start-up applications (lines 930 to 949 and 979 to 1016)\<close>

definition main_root_pixmap :: "options \<Rightarrow> world \<Rightarrow> world" where
  "main_root_pixmap opts w =
     (if autostart opts
      then emit (Call ''copy the root window contents to a pixmap'')
             (emit (LOG ''This is not an in-place restart, copying root window contents to a pixmap'') w)
      else w)"

definition main_autostart :: "options \<Rightarrow> world \<Rightarrow> world" where
  "main_autostart opts w =
     (let w1 = (if autostart opts then emit (Call ''start_application (autostarts)'') w else w);
          w2 = emit (Call ''start_application (autostarts_always)'') w1
      in emit (Call ''start_application (bars)'') w2)"

subsection \<open>The whole of main, from line 502\<close>

text \<open>The steps in the order of the source. A step that no property below looks into is
  a call in the trace. \<open>Some (Inr w)\<close> is the process entering \<open>ev_loop\<close> in world \<open>w\<close>,
  \<open>Some (Inl (f, w))\<close> the process ending before that, \<open>None\<close> a loop of \<open>main\<close> that
  never returns. \<open>xcb_fd\<close> is the descriptor of the X connection. The \<open>pledge\<close> call of
  the OpenBSD build is left out.\<close>

definition main :: "env \<Rightarrow> options \<Rightarrow> fd \<Rightarrow> world \<Rightarrow> outcome" where
  "main env opts xcb_fd =
     run_steps
       [call ''init_logging, core dumps of a debug build'',
        main_connect env,
        call ''xcb_intern_atom (atoms.xmacro)'',
        main_visual env,
        call ''init_dpi, xcb_get_geometry, xcb_query_pointer'',
        main_atoms env,
        call ''config.ipc_socket_path, force_xinerama'',
        main_become_wm env,
        call ''xcursor, xkb, shape, restore_connect, property_handlers_init, ewmh_setup_hints'',
        main_keymap env,
        (\<lambda>w. continue (main_tree env opts w)),
        call ''outputs, scratchpad_fix_resolution, con_activate, tree_render'',
        (\<lambda>w. continue (main_ipc_socket env w)),
        (\<lambda>w. continue (main_socket_activation env w)),
        (\<lambda>w. continue (main_restart_fd env w)),
        call ''x_set_i3_atoms, ewmh_update_workarea, ewmh_update_desktop_properties'',
        (\<lambda>w. continue (main_arm_x11 env xcb_fd w)),
        main_manage_existing env,
        (\<lambda>w. continue (main_root_pixmap opts w)),
        (\<lambda>w. continue (main_signals opts w)),
        (\<lambda>w. continue (main_autostart opts w)),
        (\<lambda>w. continue (atexit AtExit_i3_exit w)),
        (\<lambda>w. continue (emit EvLoop w))]"

text \<open>The world in which \<open>main\<close> starts: nothing called yet, no watcher, every signal at
  its default, the descriptors as inherited.\<close>

definition initial_world :: "xcb_generic_event list \<Rightarrow> (fd \<rightharpoonup> nat) \<Rightarrow> world" where
  "initial_world arriving fds =
     \<lparr>trace = [],
      conn = \<lparr>buffer = [], socket = arriving\<rparr>,
      main_loop = \<lparr>prepares = [], ios = [], signals = [], pendings = [], activecnt = 0\<rparr>,
      fd_flags = fds,
      sigdisp = (\<lambda>sig. SIG_DFL),
      raised = None,
      atexit_fns = [],
      root_depth = 0,
      colormap = 0,
      visual_type = None,
      listen_fds = 0\<rparr>"

section \<open>Observations\<close>

text \<open>The events \<open>xcb_poll_for_event\<close> will return, in order: the buffered ones, then
  the ones still at the socket.\<close>

definition queued :: "world \<Rightarrow> xcb_generic_event list" where
  "queued w = buffer (conn w) @ socket (conn w)"

text \<open>The calls of \<open>handle_event\<close> in a trace, in order.\<close>

definition dispatched :: "action list \<Rightarrow> (int \<times> xcb_generic_event) list" where
  "dispatched tr =
     List.map_filter (\<lambda>a. case a of HandleEvent t e \<Rightarrow> Some (t, e) | _ \<Rightarrow> None) tr"

text \<open>What the drain callback does with one event it pulled, and with a sequence.\<close>

definition drain_action :: "env \<Rightarrow> xcb_generic_event \<Rightarrow> action" where
  "drain_action env e =
     (if response_type e = 0
      then (if event_is_ignored env (sequence e) 0
            then DLOG ''Expected X11 Error received''
            else DLOG ''X11 Error received (probably harmless)!'')
      else HandleEvent (uint (response_type e AND 0x7F)) e)"

definition handled :: "xcb_generic_event list \<Rightarrow> (int \<times> xcb_generic_event) list" where
  "handled es =
     map (\<lambda>e. (uint (response_type e AND 0x7F), e)) (filter (\<lambda>e. response_type e \<noteq> 0) es)"

definition is_map_request :: "xcb_generic_event \<Rightarrow> bool" where
  "is_map_request e = (response_type e \<noteq> 0 \<and> uint (response_type e AND 0x7F) = XCB_MAP_REQUEST)"

definition empty_conn :: xcb_connection where
  "empty_conn = \<lparr>buffer = [], socket = []\<rparr>"

text \<open>The connection after the flush that ends the drain callback, when the buffer and
  the socket were empty before it: it holds what the flush read while writing.\<close>

definition after_flush :: "env \<Rightarrow> action list \<Rightarrow> xcb_connection" where
  "after_flush env tr =
     (case x_flush_reads env tr of
        None \<Rightarrow> empty_conn
      | Some arrived \<Rightarrow> \<lparr>buffer = arrived, socket = []\<rparr>)"

section \<open>Concrete inputs\<close>

text \<open>A server and a process environment in which nothing fails, and a few events:
  a MapRequest, an UnmapNotify, an error packet, and a MapRequest another client sent
  with SendEvent (the top bit of \<open>response_type\<close> is set).\<close>

definition ev_map_request :: xcb_generic_event where
  "ev_map_request = \<lparr>response_type = 20, pad0 = 0, sequence = 7\<rparr>"

definition ev_unmap_notify :: xcb_generic_event where
  "ev_unmap_notify = \<lparr>response_type = 18, pad0 = 0, sequence = 8\<rparr>"

definition ev_error :: xcb_generic_event where
  "ev_error = \<lparr>response_type = 0, pad0 = 3, sequence = 9\<rparr>"

definition ev_sent_map_request :: xcb_generic_event where
  "ev_sent_map_request = \<lparr>response_type = 148, pad0 = 0, sequence = 10\<rparr>"

definition env_plain :: env where
  "env_plain =
     \<lparr>event_is_ignored = (\<lambda>s n. False),
      x_server = (\<lambda>t e. []),
      x_flush_reads = (\<lambda>tr. None),
      shmlogname = ''/i3-log-1234'',
      ipc_socket_path = ''/run/user/1000/i3/ipc-socket.1234'',
      conn_has_error = False,
      ev_default_ok = True,
      root_screen = \<lparr>root = 0x1A4, screen_root_depth = 24, default_colormap = 0x20\<rparr>,
      find_visual_32 = None,
      depth_of_visual = (\<lambda>v. 32),
      generated_id = 0x400001,
      colormap_error = None,
      get_visualtype = (\<lambda>s. \<lparr>visual_id = 0x21\<rparr>),
      atom_replies_ok = True,
      wm_check_error = None,
      geometry_reply_ok = True,
      load_keymap_ok = True,
      tree_restore = (\<lambda>p. False),
      dirname = (\<lambda>p. ''/run/user/1000/i3''),
      ipc_create_socket = (\<lambda>p. 6),
      sd_listen_fds = (\<lambda>u. 2),
      getenv = (\<lambda>n. if n = ''_I3_RESTART_FD'' then Some ''7'' else None),
      parse_long = (\<lambda>s b. if s = ''7'' then (True, 7) else (False, 0))\<rparr>"

definition world_stale :: world where
  "world_stale =
     initial_world [ev_map_request, ev_unmap_notify, ev_error, ev_sent_map_request] Map.empty"

definition world_armed :: "xcb_generic_event list \<Rightarrow> xcb_generic_event list \<Rightarrow> world" where
  "world_armed buffered arriving =
     (initial_world arriving Map.empty)
       \<lparr>conn := \<lparr>buffer = buffered, socket = arriving\<rparr>,
        main_loop := \<lparr>prepares = [xcb_prepare], ios = [xcb_watcher 5], signals = [],
                      pendings = [], activecnt = 2\<rparr>\<rparr>"

text \<open>The world while a modal handler has the drain source disabled, with two events
  waiting.\<close>

definition world_dragging :: world where
  "world_dragging = main_set_x11_cb False (world_armed [ev_map_request] [ev_error])"

text \<open>The same server, with an UnmapNotify that arrives while a flush writes.\<close>

definition env_flush_race :: env where
  "env_flush_race = env_plain\<lparr>x_flush_reads := (\<lambda>tr. Some [ev_unmap_notify])\<rparr>"

text \<open>Observations on the outcome of \<open>main\<close>: how the process ended, if it did;
  the conditions other than the colormap under which \<open>main\<close> ends the process; a step
  that always continues.\<close>

definition fate_of :: "outcome \<Rightarrow> fate option" where
  "fate_of r = (case r of Some (Inl (f, w)) \<Rightarrow> Some f | _ \<Rightarrow> None)"

definition other_fatal :: "env \<Rightarrow> bool" where
  "other_fatal env =
     (conn_has_error env \<or> \<not> ev_default_ok env \<or> \<not> atom_replies_ok env
      \<or> wm_check_error env \<noteq> None \<or> \<not> geometry_reply_ok env \<or> \<not> load_keymap_ok env)"

definition passes :: "(world \<Rightarrow> outcome) \<Rightarrow> bool" where
  "passes step = (\<forall>w. \<exists>w'. step w = Some (Inr w'))"

definition opts_plain :: options where
  "opts_plain = \<lparr>autostart = True, layout_path = Some ''/run/user/1000/i3/restart-state.1234'',
                 delete_layout_path = True, disable_signalhandler = True\<rparr>"

text \<open>The same command line without \<open>--disable-signalhandler\<close>.\<close>

definition opts_default :: options where
  "opts_default = opts_plain\<lparr>disable_signalhandler := False\<rparr>"

definition env_no_colormap :: env where
  "env_no_colormap = env_plain\<lparr>find_visual_32 := Some \<lparr>visual_id = 0x5C\<rparr>, colormap_error := Some 11\<rparr>"

text \<open>The descriptor flags with close-on-exec cleared, as the loop over the passed
  descriptors computes them; a process that inherited descriptors 3 and 4 with
  close-on-exec set.\<close>

definition clear_cloexec :: "nat \<Rightarrow> nat" where
  "clear_cloexec fl = nat (int fl AND NOT FD_CLOEXEC)"

definition world_activated :: world where
  "world_activated = initial_world [] [3 \<mapsto> 1, 4 \<mapsto> 1]"

text \<open>The process as it runs its loop after \<open>setup_term_handlers\<close> and
  \<open>atexit(i3_exit)\<close>; the calls \<open>i3_exit\<close> makes; a world with given pending watchers.\<close>

definition world_running :: world where
  "world_running = atexit AtExit_i3_exit (setup_term_handlers (initial_world [] Map.empty))"

definition i3_exit_actions :: "env \<Rightarrow> action list" where
  "i3_exit_actions env =
     (if shmlogname env \<noteq> []
      then [Call ''fprintf(stderr, Closing SHM log)'', ShmUnlink (shmlogname env)] else [])
     @ [IpcShutdown, Unlink (ipc_socket_path env), XcbDisconnect, EvLoopDestroy]"

definition with_pending :: "(watcher \<times> int) list \<Rightarrow> world \<Rightarrow> world" where
  "with_pending ps w = w\<lparr>main_loop := (main_loop w)\<lparr>pendings := ps\<rparr>\<rparr>"

text \<open>The loop before and after \<open>main\<close> has armed the drain watcher, and a step of
  \<open>main\<close> that keeps a property of the world.\<close>

definition unarmed :: "ev_loop \<Rightarrow> bool" where
  "unarmed l = (prepares l = [] \<and> pendings l = [] \<and> xcb_prepare \<notin> set (ios l)
                \<and> xcb_prepare \<notin> set (signals l))"

definition armed :: "ev_loop \<Rightarrow> bool" where
  "armed l = (prepares l = [xcb_prepare] \<and> pendings l = [])"

definition keeps :: "(world \<Rightarrow> bool) \<Rightarrow> (world \<Rightarrow> outcome) \<Rightarrow> bool" where
  "keeps P step = (\<forall>w w'. step w = Some (Inr w') \<longrightarrow> P w \<longrightarrow> P w')"

section \<open>The drain loop\<close>

lemmas xcb_prepare_loop_induct =
  xcb_prepare_loop.raw_induct[rotated 1, consumes 1, case_names step]

lemmas main_discard_loop_induct =
  main_discard_loop.raw_induct[rotated 1, consumes 1, case_names step]

lemma emit_simps [simp]:
  "trace (emit a w) = trace w @ [a]" "conn (emit a w) = conn w"
  "main_loop (emit a w) = main_loop w" "fd_flags (emit a w) = fd_flags w"
  "sigdisp (emit a w) = sigdisp w" "raised (emit a w) = raised w"
  "atexit_fns (emit a w) = atexit_fns w" "root_depth (emit a w) = root_depth w"
  "colormap (emit a w) = colormap w" "visual_type (emit a w) = visual_type w"
  "listen_fds (emit a w) = listen_fds w"
  by (simp_all add: emit_def)

lemma queued_emit [simp]: "queued (emit a w) = queued w"
  by (simp add: queued_def)

lemma poll_None: "queued w = [] \<Longrightarrow> xcb_poll_for_event w = (None, w)"
  by (simp add: xcb_poll_for_event_def queued_def)

lemma poll_Some:
  "queued w = e # es \<Longrightarrow>
     \<exists>c. xcb_poll_for_event w = (Some e, w\<lparr>conn := c\<rparr>) \<and> buffer c @ socket c = es"
proof (cases "buffer (conn w)")
  case Nil
  assume "queued w = e # es"
  with Nil have "xcb_poll_for_event w = (Some e, w\<lparr>conn := (conn w)\<lparr>buffer := es, socket := []\<rparr>\<rparr>)"
    by (simp add: xcb_poll_for_event_def queued_def)
  then show ?thesis by (intro exI[of _ "(conn w)\<lparr>buffer := es, socket := []\<rparr>"]) simp
next
  case (Cons a list)
  assume "queued w = e # es"
  with Cons have "xcb_poll_for_event w = (Some e, w\<lparr>conn := (conn w)\<lparr>buffer := list\<rparr>\<rparr>)"
    "list @ socket (conn w) = es"
    by (simp_all add: xcb_poll_for_event_def queued_def)
  then show ?thesis by (intro exI[of _ "(conn w)\<lparr>buffer := list\<rparr>"]) simp
qed

lemma queued_Nil: "queued w = [] \<Longrightarrow> conn w = empty_conn"
  by (cases "conn w") (simp add: queued_def empty_conn_def)

lemma drained_Nil: "queued w = [] \<Longrightarrow> w\<lparr>trace := trace w @ [], conn := empty_conn\<rparr> = w"
proof -
  assume "queued w = []"
  then have "conn w = empty_conn" by (rule queued_Nil)
  then have "w\<lparr>conn := empty_conn\<rparr> = w\<lparr>conn := conn w\<rparr>" by simp
  then show ?thesis by simp
qed

lemma emit_if: "(if b then emit x w else emit y w) = emit (if b then x else y) w"
  by simp

lemma xcb_prepare_loop_result:
  "xcb_prepare_loop env w = Some w' \<Longrightarrow>
     \<exists>rest. w' = w\<lparr>trace := trace w @ map (drain_action env) (queued w @ rest),
                    conn := empty_conn\<rparr>"
proof (induction env w w' rule: xcb_prepare_loop_induct)
  case (step loop env w w')
  show ?case
  proof (cases "queued w")
    case Nil
    with step.hyps have "w' = w" by (simp add: poll_None)
    with Nil have "w' = w\<lparr>trace := trace w @ map (drain_action env) (queued w @ []),
                    conn := empty_conn\<rparr>"
      using drained_Nil[OF Nil] by simp
    then show ?thesis by blast
  next
    case (Cons e es)
    from poll_Some[OF Cons] obtain c where poll: "xcb_poll_for_event w = (Some e, w\<lparr>conn := c\<rparr>)"
      and c: "buffer c @ socket c = es" by blast
    show ?thesis
    proof (cases "response_type e = 0")
      case True
      define w2 where "w2 = emit (drain_action env e) (w\<lparr>conn := c\<rparr>)"
      from True have "w2 = (if event_is_ignored env (sequence e) 0
               then emit (DLOG ''Expected X11 Error received'') (w\<lparr>conn := c\<rparr>)
               else emit (DLOG ''X11 Error received (probably harmless)!'') (w\<lparr>conn := c\<rparr>))"
        by (simp add: w2_def drain_action_def)
      with poll True step.hyps have "loop env w2 = Some w'"
        by simp
      from step.IH[OF this] obtain rest where
        d: "w' = w2\<lparr>trace := trace w2 @ map (drain_action env) (queued w2 @ rest),
                    conn := empty_conn\<rparr>"
        by blast
      have "queued w2 = es" using c by (simp add: w2_def queued_def)
      with d have "w' = w\<lparr>trace := trace w @ map (drain_action env) (queued w @ rest),
                    conn := empty_conn\<rparr>"
        using Cons by (simp add: w2_def emit_def)
      then show ?thesis by blast
    next
      case False
      define t where "t = uint (response_type e AND 0x7F)"
      define w2 where "w2 = handle_event env t e (w\<lparr>conn := c\<rparr>)"
      from poll False step.hyps have "loop env w2 = Some w'" by (simp add: w2_def t_def)
      from step.IH[OF this] obtain rest where
        d: "w' = w2\<lparr>trace := trace w2 @ map (drain_action env) (queued w2 @ rest),
                    conn := empty_conn\<rparr>"
        by blast
      have "queued w2 = es @ x_server env t e" using c
        by (simp add: w2_def queued_def handle_event_def emit_def)
      with d have "w' = w\<lparr>trace := trace w @ map (drain_action env) (queued w @ (x_server env t e @ rest)),
                    conn := empty_conn\<rparr>"
        using Cons False by (simp add: w2_def emit_def handle_event_def drain_action_def t_def)
      then show ?thesis by blast
    qed
  qed
qed

lemma xcb_prepare_loop_returns:
  "(\<forall>t e. x_server env t e = []) \<Longrightarrow> \<exists>w'. xcb_prepare_loop env w = Some w'"
proof (induction "length (queued w)" arbitrary: w)
  case 0
  then show ?case by (subst xcb_prepare_loop.simps) (simp add: poll_None)
next
  case (Suc n)
  then obtain e es where q: "queued w = e # es" by (cases "queued w") simp_all
  from poll_Some[OF q] obtain c where poll: "xcb_poll_for_event w = (Some e, w\<lparr>conn := c\<rparr>)"
      and c: "buffer c @ socket c = es" by blast
  from q Suc.hyps(2) have n: "n = length es" by simp
  show ?case
  proof (cases "response_type e = 0")
    case True
    define w2 where "w2 = emit (drain_action env e) (w\<lparr>conn := c\<rparr>)"
    have "n = length (queued w2)" using n c by (simp add: w2_def queued_def)
    from Suc.hyps(1)[OF this Suc.prems] obtain w' where "xcb_prepare_loop env w2 = Some w'" by blast
    moreover from True have "w2 = (if event_is_ignored env (sequence e) 0
               then emit (DLOG ''Expected X11 Error received'') (w\<lparr>conn := c\<rparr>)
               else emit (DLOG ''X11 Error received (probably harmless)!'') (w\<lparr>conn := c\<rparr>))"
      by (simp add: w2_def drain_action_def)
    ultimately show ?thesis using poll True
      by (subst xcb_prepare_loop.simps) simp
  next
    case False
    define w2 where "w2 = handle_event env (uint (response_type e AND 0x7F)) e (w\<lparr>conn := c\<rparr>)"
    have "n = length (queued w2)" using n c Suc.prems
      by (simp add: w2_def queued_def handle_event_def emit_def)
    from Suc.hyps(1)[OF this Suc.prems] obtain w' where "xcb_prepare_loop env w2 = Some w'" by blast
    then show ?thesis using poll False by (subst xcb_prepare_loop.simps) (simp add: w2_def)
  qed
qed

lemma dispatched_append: "dispatched (a @ b) = dispatched a @ dispatched b"
  by (simp add: dispatched_def map_filter_def)

lemma dispatched_drain: "dispatched (map (drain_action env) es) = handled es"
  by (induction es) (simp_all add: dispatched_def handled_def map_filter_def drain_action_def)

section \<open>The loop that discards stale events\<close>

lemma main_discard_loop_result:
  "main_discard_loop env w = Some w' \<Longrightarrow>
     \<exists>rest. w' = w\<lparr>trace := trace w @ map (HandleEvent XCB_MAP_REQUEST)
                                         (filter is_map_request (queued w @ rest)),
                    conn := empty_conn\<rparr>"
proof (induction env w w' rule: main_discard_loop_induct)
  case (step loop env w w')
  show ?case
  proof (cases "queued w")
    case Nil
    with step.hyps have "w' = w" by (simp add: poll_None)
    with Nil have "w' = w\<lparr>trace := trace w @ map (HandleEvent XCB_MAP_REQUEST)
                                         (filter is_map_request (queued w @ [])),
                    conn := empty_conn\<rparr>"
      using drained_Nil[OF Nil] by simp
    then show ?thesis by blast
  next
    case (Cons e es)
    from poll_Some[OF Cons] obtain c where poll: "xcb_poll_for_event w = (Some e, w\<lparr>conn := c\<rparr>)"
      and c: "buffer c @ socket c = es" by blast
    show ?thesis
    proof (cases "is_map_request e")
      case False
      define w2 where "w2 = w\<lparr>conn := c\<rparr>"
      from poll False step.hyps have "loop env w2 = Some w'"
        by (simp add: w2_def is_map_request_def split: if_splits)
      from step.IH[OF this] obtain rest where
        d: "w' = w2\<lparr>trace := trace w2 @ map (HandleEvent XCB_MAP_REQUEST)
                                         (filter is_map_request (queued w2 @ rest)),
                    conn := empty_conn\<rparr>"
        by blast
      have "queued w2 = es" using c by (simp add: w2_def queued_def)
      with d have "w' = w\<lparr>trace := trace w @ map (HandleEvent XCB_MAP_REQUEST)
                                         (filter is_map_request (queued w @ rest)),
                    conn := empty_conn\<rparr>"
        using Cons False by (simp add: w2_def)
      then show ?thesis by blast
    next
      case True
      define w2 where "w2 = handle_event env XCB_MAP_REQUEST e (w\<lparr>conn := c\<rparr>)"
      from poll True step.hyps have "loop env w2 = Some w'"
        by (simp add: w2_def is_map_request_def)
      from step.IH[OF this] obtain rest where
        d: "w' = w2\<lparr>trace := trace w2 @ map (HandleEvent XCB_MAP_REQUEST)
                                         (filter is_map_request (queued w2 @ rest)),
                    conn := empty_conn\<rparr>"
        by blast
      have "queued w2 = es @ x_server env XCB_MAP_REQUEST e" using c
        by (simp add: w2_def queued_def handle_event_def emit_def)
      with d have "w' = w\<lparr>trace := trace w @ map (HandleEvent XCB_MAP_REQUEST)
                 (filter is_map_request (queued w @ (x_server env XCB_MAP_REQUEST e @ rest))),
                    conn := empty_conn\<rparr>"
        using Cons True by (simp add: w2_def emit_def handle_event_def)
      then show ?thesis by blast
    qed
  qed
qed

lemma main_discard_loop_returns:
  "(\<forall>t e. x_server env t e = []) \<Longrightarrow> \<exists>w'. main_discard_loop env w = Some w'"
proof (induction "length (queued w)" arbitrary: w)
  case 0
  then show ?case by (subst main_discard_loop.simps) (simp add: poll_None)
next
  case (Suc n)
  then obtain e es where q: "queued w = e # es" by (cases "queued w") simp_all
  from poll_Some[OF q] obtain c where poll: "xcb_poll_for_event w = (Some e, w\<lparr>conn := c\<rparr>)"
      and c: "buffer c @ socket c = es" by blast
  from q Suc.hyps(2) have n: "n = length es" by simp
  have a: "n = length (queued (w\<lparr>conn := c\<rparr>))" using n c by (simp add: queued_def)
  have b: "n = length (queued (handle_event env t e (w\<lparr>conn := c\<rparr>)))" for t
    using n c Suc.prems by (simp add: queued_def handle_event_def emit_def)
  from Suc.hyps(1)[OF a Suc.prems] Suc.hyps(1)[OF b Suc.prems]
  show ?case using poll
    by (subst main_discard_loop.simps) simp
qed

section \<open>The discard loop on a concrete queue\<close>

lemma stale_eval:
  "main_manage_existing env_plain world_stale = Some (Inr (world_stale\<lparr>trace := [XcbGrabServer, XcbAuxSync, HandleEvent 20 ev_map_request, HandleEvent 20 ev_sent_map_request, ManageExistingWindows 0x1A4, XcbUngrabServer], conn := empty_conn\<rparr>))"
  by (simp add: main_manage_existing_def main_discard_loop.simps xcb_poll_for_event_def xcb_aux_sync_def emit_def
   world_stale_def initial_world_def env_plain_def handle_event_def XCB_MAP_REQUEST_def continue_def empty_conn_def
   ev_map_request_def ev_unmap_notify_def ev_error_def ev_sent_map_request_def)

section \<open>The reconciliation of existing windows\<close>

text \<open>C3. The reconciliation of existing windows (lines 905 to 928 of \<open>main\<close>):
  whenever it returns, the process has not ended, and the calls it made are, in this
  order, the server grab, the round-trip synchronisation, \<open>handle_event\<close> for exactly
  the pending events that are MapRequests (every other pending event, error packets
  included, is dropped without a call), \<open>manage_existing_windows\<close> on the root window and
  the release of the grab; the connection is left with nothing queued. It does return
  when the server sends nothing in answer to the handled requests.\<close>

theorem main_manage_existing_order:
  "(main_manage_existing env w = Some r \<longrightarrow>
      (\<exists>rest. r = Inr (w\<lparr>trace := trace w @ [XcbGrabServer, XcbAuxSync]
                            @ map (HandleEvent XCB_MAP_REQUEST)
                                (filter is_map_request (queued w @ rest))
                            @ [ManageExistingWindows (root (root_screen env)), XcbUngrabServer],
                          conn := empty_conn\<rparr>)))
   \<and> ((\<forall>t e. x_server env t e = []) \<longrightarrow> main_manage_existing env w \<noteq> None)"
proof (intro conjI impI)
  define w0 where "w0 = xcb_aux_sync (emit XcbGrabServer w)"
  have q: "queued w0 = queued w" and t: "trace w0 = trace w @ [XcbGrabServer, XcbAuxSync]"
    and eq: "w0\<lparr>trace := tr, conn := c\<rparr> = w\<lparr>trace := tr, conn := c\<rparr>" for tr c
    by (simp_all add: w0_def xcb_aux_sync_def emit_def queued_def)
  {
    assume a: "main_manage_existing env w = Some r"
    then obtain w1 where l: "main_discard_loop env w0 = Some w1"
      and r: "r = Inr (emit XcbUngrabServer (emit (ManageExistingWindows (root (root_screen env))) w1))"
      by (auto simp: main_manage_existing_def continue_def w0_def split: option.splits)
    from main_discard_loop_result[OF l] obtain rest where
      "w1 = w0\<lparr>trace := trace w0 @ map (HandleEvent XCB_MAP_REQUEST)
                                         (filter is_map_request (queued w0 @ rest)),
                    conn := empty_conn\<rparr>" by blast
    with q t eq have "w1 = w\<lparr>trace := trace w @ [XcbGrabServer, XcbAuxSync] @ map (HandleEvent XCB_MAP_REQUEST)
                                         (filter is_map_request (queued w @ rest)),
                    conn := empty_conn\<rparr>" by simp
    with r have "r = Inr (w\<lparr>trace := trace w @ [XcbGrabServer, XcbAuxSync]
                            @ map (HandleEvent XCB_MAP_REQUEST)
                                (filter is_map_request (queued w @ rest))
                            @ [ManageExistingWindows (root (root_screen env)), XcbUngrabServer],
                          conn := empty_conn\<rparr>)"
      by (simp add: emit_def)
    then show "\<exists>rest. r = Inr (w\<lparr>trace := trace w @ [XcbGrabServer, XcbAuxSync]
                            @ map (HandleEvent XCB_MAP_REQUEST)
                                (filter is_map_request (queued w @ rest))
                            @ [ManageExistingWindows (root (root_screen env)), XcbUngrabServer],
                          conn := empty_conn\<rparr>)" by blast
  }
  {
    assume "\<forall>t e. x_server env t e = []"
    from main_discard_loop_returns[OF this] obtain w1 where "main_discard_loop env w0 = Some w1"
      by blast
    then show "main_manage_existing env w \<noteq> None"
      by (simp add: main_manage_existing_def continue_def w0_def)
  }
qed

theorem main_manage_existing_order_witness:
  "(\<forall>t e. x_server env_plain t e = [])
   \<and> main_manage_existing env_plain world_stale \<noteq> None
   \<and> (\<exists>rest. Inr (world_stale\<lparr>trace := [XcbGrabServer, XcbAuxSync,
                                         HandleEvent 20 ev_map_request,
                                         HandleEvent 20 ev_sent_map_request,
                                         ManageExistingWindows 0x1A4, XcbUngrabServer],
                               conn := empty_conn\<rparr>)
        = (Inr (world_stale\<lparr>trace := trace world_stale @ [XcbGrabServer, XcbAuxSync]
                            @ map (HandleEvent XCB_MAP_REQUEST)
                                (filter is_map_request (queued world_stale @ rest))
                            @ [ManageExistingWindows (root (root_screen env_plain)),
                               XcbUngrabServer],
                          conn := empty_conn\<rparr>) :: fate \<times> world + world))"
proof -
  have q: "\<forall>t e. x_server env_plain t e = []" by (simp add: env_plain_def)
  note inst = main_manage_existing_order[of env_plain world_stale
      "Inr (world_stale\<lparr>trace := [XcbGrabServer, XcbAuxSync,
                                         HandleEvent 20 ev_map_request,
                                         HandleEvent 20 ev_sent_map_request,
                                         ManageExistingWindows 0x1A4, XcbUngrabServer],
                               conn := empty_conn\<rparr>)"]
  from inst q have "main_manage_existing env_plain world_stale \<noteq> None" by blast
  moreover from inst stale_eval have "\<exists>rest. Inr (world_stale\<lparr>trace := [XcbGrabServer, XcbAuxSync,
                                         HandleEvent 20 ev_map_request,
                                         HandleEvent 20 ev_sent_map_request,
                                         ManageExistingWindows 0x1A4, XcbUngrabServer],
                               conn := empty_conn\<rparr>)
        = (Inr (world_stale\<lparr>trace := trace world_stale @ [XcbGrabServer, XcbAuxSync]
                            @ map (HandleEvent XCB_MAP_REQUEST)
                                (filter is_map_request (queued world_stale @ rest))
                            @ [ManageExistingWindows (root (root_screen env_plain)),
                               XcbUngrabServer],
                          conn := empty_conn\<rparr>) :: fate \<times> world + world)" by blast
  ultimately show ?thesis using q by blast
qed

section \<open>The drain callback inside the loop\<close>

lemma xcb_flush_empty:
  "conn w = empty_conn \<Longrightarrow>
     xcb_flush env w = w\<lparr>trace := trace w @ [XcbFlush], conn := after_flush env (trace w)\<rparr>"
proof (cases "x_flush_reads env (trace w)")
  case None
  assume "conn w = empty_conn"
  with None show ?thesis
    by (cases w) (simp add: xcb_flush_def after_flush_def emit_def)
next
  case (Some arrived)
  assume "conn w = empty_conn"
  with Some show ?thesis by (simp add: xcb_flush_def after_flush_def emit_def empty_conn_def)
qed

lemma xcb_prepare_cb_result:
  "xcb_prepare_cb env revents w = Some w' \<Longrightarrow>
     \<exists>rest. w' = w\<lparr>trace := trace w @ map (drain_action env) (queued w @ rest) @ [XcbFlush],
                    conn := after_flush env (trace w @ map (drain_action env) (queued w @ rest))\<rparr>"
proof -
  assume "xcb_prepare_cb env revents w = Some w'"
  then obtain w1 where l: "xcb_prepare_loop env w = Some w1" and f: "w' = xcb_flush env w1"
    by (auto simp: xcb_prepare_cb_def)
  from xcb_prepare_loop_result[OF l] obtain rest where
    w1: "w1 = w\<lparr>trace := trace w @ map (drain_action env) (queued w @ rest), conn := empty_conn\<rparr>"
    by blast
  then have "conn w1 = empty_conn" by simp
  from xcb_flush_empty[OF this, of env] f w1
  have "w' = w\<lparr>trace := trace w @ map (drain_action env) (queued w @ rest) @ [XcbFlush],
                    conn := after_flush env (trace w @ map (drain_action env) (queued w @ rest))\<rparr>"
    by simp
  then show ?thesis by blast
qed

lemma xcb_prepare_cb_returns:
  "(\<forall>t e. x_server env t e = []) \<Longrightarrow> \<exists>w'. xcb_prepare_cb env revents w = Some w'"
  using xcb_prepare_loop_returns[of env w] by (auto simp: xcb_prepare_cb_def)

lemma invoke_xcb_prepare:
  "invoke env xcb_prepare revents w = map_option Inr (xcb_prepare_cb env revents w)"
  by (simp add: invoke_def xcb_prepare_def watcher_cb_def)

lemma ev_invoke_pending_Nil:
  "pendings (main_loop w) = [] \<Longrightarrow> ev_invoke_pending env w = Some (Inr w)"
  by (subst ev_invoke_pending.simps) simp

lemma ev_invoke_pending_prepare:
  "pendings (main_loop w) = (xcb_prepare, revents) # ps \<Longrightarrow>
     ev_invoke_pending env w =
       (case xcb_prepare_cb env revents (w\<lparr>main_loop := (main_loop w)\<lparr>pendings := ps\<rparr>\<rparr>) of
          None \<Rightarrow> None
        | Some w' \<Rightarrow> ev_invoke_pending env w')"
  by (subst ev_invoke_pending.simps) (simp add: invoke_xcb_prepare split: option.splits)

lemma handled_append: "handled (a @ b) = handled a @ handled b"
  by (simp add: handled_def)

lemma dispatched_Nil [simp]: "dispatched [] = []"
  by (simp add: dispatched_def map_filter_def)

lemma dispatched_DLOG [simp]: "dispatched (DLOG m # tr) = dispatched tr"
  by (simp add: dispatched_def map_filter_def)

lemma ev_feed_event_pending: "ev_is_pending (ev_feed_event l wt r) wt"
proof (cases "ev_is_pending l wt")
  case True
  then obtain b where "(wt, b) \<in> set (pendings l)" by (auto simp: ev_is_pending_def)
  then have "(wt, b OR r) \<in> set (map (\<lambda>p. if fst p = wt then (wt, snd p OR r) else p) (pendings l))"
    by force
  then have "fst (wt, b OR r) \<in> fst ` set (map (\<lambda>p. if fst p = wt then (wt, snd p OR r) else p) (pendings l))"
    by (rule imageI)
  then have "wt \<in> fst ` set (map (\<lambda>p. if fst p = wt then (wt, snd p OR r) else p) (pendings l))"
    by simp
  then show ?thesis using True by (simp add: ev_feed_event_def ev_is_pending_def)
next
  case False
  then show ?thesis by (simp add: ev_feed_event_def ev_is_pending_def)
qed

lemma dispatched_tail [simp]: "dispatched [XcbFlush, BackendPoll] = []" "dispatched [XcbFlush] = []"
  by (simp_all add: dispatched_def map_filter_def)

text \<open>An iteration of the event loop that starts with the drain watcher as the only
  prepare watcher and with nothing pending, in general. If it reaches its blocking wait,
  the process has not ended and, since the iteration began, exactly this has happened:
  every event that was queued, and every event that arrived while the drain ran, was
  pulled in arrival order and handed to \<open>handle_event\<close>, or logged when it is an error
  packet; then the outgoing requests were flushed, and the wait is the next action. What
  the connection holds when the wait begins is what the flush read. The callback does
  not look at the readiness it is passed, and the wait is reached when the server sends
  nothing in answer to the handled events.\<close>

lemma ev_run_until_block_result:
  assumes "prepares (main_loop w) = [xcb_prepare]" and "pendings (main_loop w) = []"
  shows "(ev_run_until_block env w = Some r \<longrightarrow>
            (\<exists>rest w'. r = Inr w'
               \<and> w' = w\<lparr>trace := trace w @ map (drain_action env) (queued w @ rest)
                                   @ [XcbFlush, BackendPoll],
                         conn := after_flush env
                                   (trace w @ map (drain_action env) (queued w @ rest))\<rparr>
               \<and> dispatched (trace w') = dispatched (trace w) @ handled (queued w @ rest)))
       \<and> ((\<forall>t e. x_server env t e = []) \<longrightarrow> ev_run_until_block env w \<noteq> None)
       \<and> xcb_prepare_cb env revents w = xcb_prepare_cb env EV_PREPARE w"
proof (intro conjI impI)
  define w0 where "w0 = w\<lparr>main_loop := queue_events (main_loop w) (prepares (main_loop w)) EV_PREPARE\<rparr>"
  define w1 where "w1 = w0\<lparr>main_loop := (main_loop w0)\<lparr>pendings := []\<rparr>\<rparr>"
  have p: "pendings (main_loop w0) = (xcb_prepare, EV_PREPARE) # []"
    using assms by (simp add: w0_def queue_events_def ev_feed_event_def ev_is_pending_def)
  have "main_loop w1 = main_loop w" using assms
    by (simp add: w1_def w0_def queue_events_def ev_feed_event_def ev_is_pending_def)
  then have w1: "w1 = w" by (simp add: w1_def w0_def)
  have inv: "ev_invoke_pending env w0 =
       (case xcb_prepare_cb env EV_PREPARE w of None \<Rightarrow> None
        | Some w' \<Rightarrow> ev_invoke_pending env w')"
    using ev_invoke_pending_prepare[OF p, of env] w1 by (simp add: w1_def)
  have fin: "ev_invoke_pending env w' = Some (Inr w')"
    if "xcb_prepare_cb env EV_PREPARE w = Some w'" for w'
  proof -
    from xcb_prepare_cb_result[OF that] obtain rest where
      "w' = w\<lparr>trace := trace w @ map (drain_action env) (queued w @ rest) @ [XcbFlush],
              conn := after_flush env (trace w @ map (drain_action env) (queued w @ rest))\<rparr>"
      by blast
    then have "pendings (main_loop w') = []" using assms by simp
    then show ?thesis by (rule ev_invoke_pending_Nil)
  qed
  {
    assume a: "ev_run_until_block env w = Some r"
    then obtain w' where c: "xcb_prepare_cb env EV_PREPARE w = Some w'"
      using inv by (auto simp: ev_run_until_block_def w0_def split: option.splits)
    from a c inv fin[OF c] have r: "r = Inr (backend_poll w')"
      by (simp add: ev_run_until_block_def w0_def)
    from xcb_prepare_cb_result[OF c] obtain rest where
      "w' = w\<lparr>trace := trace w @ map (drain_action env) (queued w @ rest) @ [XcbFlush],
              conn := after_flush env (trace w @ map (drain_action env) (queued w @ rest))\<rparr>"
      by blast
    then have e: "backend_poll w' = w\<lparr>trace := trace w @ map (drain_action env) (queued w @ rest)
                                            @ [XcbFlush, BackendPoll],
                conn := after_flush env (trace w @ map (drain_action env) (queued w @ rest))\<rparr>"
      by (simp add: backend_poll_def emit_def)
    then have "dispatched (trace (backend_poll w')) = dispatched (trace w) @ handled (queued w @ rest)"
      by (simp add: dispatched_append dispatched_drain handled_append)
    with r e show "\<exists>rest w'. r = Inr w'
               \<and> w' = w\<lparr>trace := trace w @ map (drain_action env) (queued w @ rest)
                                   @ [XcbFlush, BackendPoll],
                         conn := after_flush env
                                   (trace w @ map (drain_action env) (queued w @ rest))\<rparr>
               \<and> dispatched (trace w') = dispatched (trace w) @ handled (queued w @ rest)"
      by blast
  }
  {
    assume "\<forall>t e. x_server env t e = []"
    from xcb_prepare_cb_returns[OF this] obtain w' where c: "xcb_prepare_cb env EV_PREPARE w = Some w'"
      by blast
    with inv fin[OF c] show "ev_run_until_block env w \<noteq> None"
      by (simp add: ev_run_until_block_def w0_def)
  }
  show "xcb_prepare_cb env revents w = xcb_prepare_cb env EV_PREPARE w"
    by (simp add: xcb_prepare_cb_def)
qed

text \<open>C1. The drain callback polls until the queue is empty and only then calls
  \<open>xcb_flush\<close>, and \<open>xcb_flush\<close> reads the socket while it writes. So the loop can block
  with an event in the library's buffer, against the comment of the callback (lines 105
  to 109), by which it ensures that the incoming and outgoing queues of xcb are empty
  before the loop sleeps. Here a MapRequest is buffered when the iteration starts, it is
  handled, and an UnmapNotify arrives while the flush writes the requests of the handler.
  The iteration reaches its blocking wait with the UnmapNotify queued and not handed to
  \<open>handle_event\<close>; it is in the library's buffer, so the socket is not readable on its
  account. When the flush reads nothing, the same iteration reaches the wait with nothing
  queued.\<close>

theorem drain_blocks_with_event_queued:
  "ev_run_until_block env_flush_race (world_armed [ev_map_request] []) =
     Some (Inr ((world_armed [ev_unmap_notify] [])
                  \<lparr>trace := [HandleEvent 20 ev_map_request, XcbFlush, BackendPoll]\<rparr>))
   \<and> queued (world_armed [ev_unmap_notify] []) = [ev_unmap_notify]
   \<and> buffer (conn (world_armed [ev_unmap_notify] [])) = [ev_unmap_notify]
   \<and> socket (conn (world_armed [ev_unmap_notify] [])) = []
   \<and> dispatched [HandleEvent 20 ev_map_request, XcbFlush, BackendPoll] =
       [(20, ev_map_request)]
   \<and> ev_run_until_block env_plain (world_armed [ev_map_request] []) =
       Some (Inr ((world_armed [] [])
                    \<lparr>trace := [HandleEvent 20 ev_map_request, XcbFlush, BackendPoll]\<rparr>))"
proof (intro conjI)
  have "xcb_prepare_cb env_flush_race EV_PREPARE (world_armed [ev_map_request] []) =
     Some ((world_armed [ev_unmap_notify] [])\<lparr>trace := [HandleEvent 20 ev_map_request, XcbFlush]\<rparr>)"
    by (simp add: xcb_prepare_cb_def xcb_prepare_loop.simps xcb_poll_for_event_def xcb_flush_def
        emit_def world_armed_def initial_world_def env_flush_race_def env_plain_def
        handle_event_def ev_map_request_def)
  then show "ev_run_until_block env_flush_race (world_armed [ev_map_request] []) =
     Some (Inr ((world_armed [ev_unmap_notify] [])
                  \<lparr>trace := [HandleEvent 20 ev_map_request, XcbFlush, BackendPoll]\<rparr>))"
    by (simp add: ev_run_until_block_def queue_events_def ev_feed_event_def ev_is_pending_def
        ev_invoke_pending.simps invoke_xcb_prepare[unfolded xcb_prepare_def] invoke_def
        watcher_cb_def xcb_prepare_def backend_poll_def emit_def world_armed_def initial_world_def)
  have "xcb_prepare_cb env_plain EV_PREPARE (world_armed [ev_map_request] []) =
     Some ((world_armed [] [])\<lparr>trace := [HandleEvent 20 ev_map_request, XcbFlush]\<rparr>)"
    by (simp add: xcb_prepare_cb_def xcb_prepare_loop.simps xcb_poll_for_event_def xcb_flush_def
        emit_def world_armed_def initial_world_def env_plain_def
        handle_event_def ev_map_request_def)
  then show "ev_run_until_block env_plain (world_armed [ev_map_request] []) =
       Some (Inr ((world_armed [] [])
                    \<lparr>trace := [HandleEvent 20 ev_map_request, XcbFlush, BackendPoll]\<rparr>))"
    by (simp add: ev_run_until_block_def queue_events_def ev_feed_event_def ev_is_pending_def
        ev_invoke_pending.simps invoke_xcb_prepare[unfolded xcb_prepare_def] invoke_def
        watcher_cb_def xcb_prepare_def backend_poll_def emit_def world_armed_def initial_world_def)
qed (simp_all add: world_armed_def initial_world_def dispatched_def map_filter_def queued_def)

text \<open>C2. Disabling the drain source changes the loop only in that the drain watcher
  is no longer active nor pending (the loop's reference count drops by one when it was
  active); the connection, the other watchers, the descriptors and the signal
  dispositions are untouched. Enabling it makes the watcher active and pending and does
  not touch the connection; when the watcher was not pending before, it is on top of the
  pending stack, so the next pass of the loop over its pending watchers starts with the
  drain callback, before any other pending watcher, and that run of the callback handles
  every event queued at the time of the call (every non-error event is handed to
  \<open>handle_event\<close>) and leaves queued only what its final flush read. It returns when
  the server sends nothing in answer.\<close>

theorem main_set_x11_cb_toggle:
  fixes w :: world and env :: env
  defines "off \<equiv> main_set_x11_cb False w"
      and "on \<equiv> main_set_x11_cb True w"
  defines "popped \<equiv> on\<lparr>main_loop := (main_loop on)\<lparr>pendings := pendings (main_loop w)\<rparr>\<rparr>"
  shows "off = w\<lparr>trace := trace w @ [DLOG ''Setting main X11 callback to enabled''],
                 main_loop := (main_loop w)
                   \<lparr>prepares := removeAll xcb_prepare (prepares (main_loop w)),
                    pendings := filter (\<lambda>p. fst p \<noteq> xcb_prepare) (pendings (main_loop w)),
                    activecnt := activecnt (main_loop w)
                                  - (if ev_is_active (main_loop w) xcb_prepare then 1 else 0)\<rparr>\<rparr>
     \<and> \<not> ev_is_pending (main_loop off) xcb_prepare
     \<and> ev_is_active (main_loop on) xcb_prepare
     \<and> ev_is_pending (main_loop on) xcb_prepare
     \<and> conn on = conn w
     \<and> (\<not> ev_is_pending (main_loop w) xcb_prepare \<longrightarrow>
          pendings (main_loop on) = (xcb_prepare, 0) # pendings (main_loop w)
          \<and> ev_invoke_pending env on =
              (case xcb_prepare_cb env 0 popped of
                 None \<Rightarrow> None
               | Some w' \<Rightarrow> ev_invoke_pending env w'))
     \<and> (xcb_prepare_cb env 0 popped = Some w' \<longrightarrow>
          conn w' = after_flush env (butlast (trace w'))
          \<and> (x_flush_reads env (butlast (trace w')) = None \<longrightarrow> queued w' = [])
          \<and> (\<exists>rest. dispatched (trace w') = dispatched (trace w) @ handled (queued w @ rest)))
     \<and> ((\<forall>t e. x_server env t e = []) \<longrightarrow> xcb_prepare_cb env 0 popped \<noteq> None)"
proof (intro conjI impI)
  show "off = w\<lparr>trace := trace w @ [DLOG ''Setting main X11 callback to enabled''],
                 main_loop := (main_loop w)
                   \<lparr>prepares := removeAll xcb_prepare (prepares (main_loop w)),
                    pendings := filter (\<lambda>p. fst p \<noteq> xcb_prepare) (pendings (main_loop w)),
                    activecnt := activecnt (main_loop w)
                                  - (if ev_is_active (main_loop w) xcb_prepare then 1 else 0)\<rparr>\<rparr>"
    by (simp add: off_def main_set_x11_cb_def ev_prepare_stop_def clear_pending_def
        ev_is_active_def emit_def Let_def)
  show "\<not> ev_is_pending (main_loop off) xcb_prepare"
    by (auto simp: off_def main_set_x11_cb_def ev_prepare_stop_def clear_pending_def
        ev_is_pending_def emit_def Let_def)
  show "ev_is_active (main_loop on) xcb_prepare"
    by (auto simp: on_def main_set_x11_cb_def ev_prepare_start_def ev_feed_event_def
        ev_is_active_def emit_def Let_def)
  show "ev_is_pending (main_loop on) xcb_prepare"
    by (simp add: on_def main_set_x11_cb_def Let_def ev_feed_event_pending)
  show "conn on = conn w"
    by (simp add: on_def main_set_x11_cb_def emit_def Let_def)
  have tq: "trace popped = trace w @ [DLOG ''Setting main X11 callback to enabled'']"
    "queued popped = queued w"
    by (simp_all add: popped_def on_def main_set_x11_cb_def emit_def Let_def queued_def)
  {
    assume np: "\<not> ev_is_pending (main_loop w) xcb_prepare"
    then show p: "pendings (main_loop on) = (xcb_prepare, 0) # pendings (main_loop w)"
      by (simp add: on_def main_set_x11_cb_def ev_prepare_start_def ev_feed_event_def
        ev_is_pending_def emit_def Let_def)
    show "ev_invoke_pending env on =
              (case xcb_prepare_cb env 0 popped of
                 None \<Rightarrow> None
               | Some w' \<Rightarrow> ev_invoke_pending env w')"
      using ev_invoke_pending_prepare[OF p, of env] by (simp add: popped_def)
  }
  {
    assume "xcb_prepare_cb env 0 popped = Some w'"
    from xcb_prepare_cb_result[OF this] obtain rest where
      w': "w' = popped\<lparr>trace := trace popped @ map (drain_action env) (queued popped @ rest) @ [XcbFlush],
                    conn := after_flush env
                      (trace popped @ map (drain_action env) (queued popped @ rest))\<rparr>" by blast
    then have b: "butlast (trace w') = trace popped @ map (drain_action env) (queued popped @ rest)"
      by (simp add: butlast_append)
    with w' show c: "conn w' = after_flush env (butlast (trace w'))" by simp
    show "queued w' = []" if "x_flush_reads env (butlast (trace w')) = None"
      using c that by (simp add: queued_def after_flush_def empty_conn_def)
    from w' tq have "dispatched (trace w') = dispatched (trace w) @ handled (queued w @ rest)"
      by (simp add: dispatched_append dispatched_drain handled_append)
    then show "\<exists>rest. dispatched (trace w') = dispatched (trace w) @ handled (queued w @ rest)"
      by blast
  }
  {
    assume "\<forall>t e. x_server env t e = []"
    from xcb_prepare_cb_returns[OF this, of 0 popped]
    show "xcb_prepare_cb env 0 popped \<noteq> None" by auto
  }
qed

theorem main_set_x11_cb_toggle_witness:
  "(\<forall>t e. x_server env_plain t e = [])
   \<and> \<not> ev_is_pending (main_loop world_dragging) xcb_prepare
   \<and> \<not> ev_is_active (main_loop world_dragging) xcb_prepare
   \<and> queued world_dragging = [ev_map_request, ev_error]
   \<and> ev_is_active (main_loop (main_set_x11_cb True world_dragging)) xcb_prepare
   \<and> (\<exists>w' rest. ev_invoke_pending env_plain (main_set_x11_cb True world_dragging)
                    = ev_invoke_pending env_plain w'
         \<and> queued w' = []
         \<and> dispatched (trace w') =
             dispatched (trace world_dragging) @ handled (queued world_dragging @ rest))"
proof -
  let ?a = "world_armed [ev_map_request] [ev_error]"
  have q: "\<forall>t e. x_server env_plain t e = []" by (simp add: env_plain_def)
  have fl: "x_flush_reads env_plain tr = None" for tr by (simp add: env_plain_def)
  note off = main_set_x11_cb_toggle[where w = ?a and env = env_plain]
  from off have np: "\<not> ev_is_pending (main_loop world_dragging) xcb_prepare"
    unfolding world_dragging_def by blast
  from off have eq: "world_dragging = ?a\<lparr>trace := trace ?a @ [DLOG ''Setting main X11 callback to enabled''],
                 main_loop := (main_loop ?a)
                   \<lparr>prepares := removeAll xcb_prepare (prepares (main_loop ?a)),
                    pendings := filter (\<lambda>p. fst p \<noteq> xcb_prepare) (pendings (main_loop ?a)),
                    activecnt := activecnt (main_loop ?a)
                                  - (if ev_is_active (main_loop ?a) xcb_prepare then 1 else 0)\<rparr>\<rparr>"
    unfolding world_dragging_def by blast
  have na: "\<not> ev_is_active (main_loop world_dragging) xcb_prepare"
    and qd: "queued world_dragging = [ev_map_request, ev_error]"
    unfolding eq
    by (simp_all add: world_armed_def initial_world_def ev_is_active_def xcb_prepare_def
          xcb_watcher_def queued_def)
  let ?popped = "(main_set_x11_cb True world_dragging)
        \<lparr>main_loop := (main_loop (main_set_x11_cb True world_dragging))
                        \<lparr>pendings := pendings (main_loop world_dragging)\<rparr>\<rparr>"
  from main_set_x11_cb_toggle[where w = world_dragging and env = env_plain] q
  obtain w' where w': "xcb_prepare_cb env_plain 0 ?popped = Some w'" by blast
  note on = main_set_x11_cb_toggle[where w = world_dragging and env = env_plain and w' = w']
  from on have act: "ev_is_active (main_loop (main_set_x11_cb True world_dragging)) xcb_prepare"
    by blast
  from on np w' have "ev_invoke_pending env_plain (main_set_x11_cb True world_dragging)
                    = ev_invoke_pending env_plain w'" by simp
  moreover from on w' fl[of "butlast (trace w')"] have "queued w' = []"
     "\<exists>rest. dispatched (trace w') =
             dispatched (trace world_dragging) @ handled (queued world_dragging @ rest)"
    by blast+
  ultimately show ?thesis using q np na qd act by blast
qed

section \<open>The whole of main\<close>

lemma run_steps_passes:
  "list_all passes steps \<Longrightarrow> \<exists>w'. run_steps steps w = Some (Inr w')"
proof (induction steps arbitrary: w)
  case Nil
  then show ?case by (simp add: continue_def)
next
  case (Cons step steps)
  then obtain w1 where "step w = Some (Inr w1)" by (auto simp: passes_def)
  with Cons show ?case by simp
qed

lemma passes_simple [simp]: "passes (call name)" "passes (\<lambda>w. continue (f w))"
  by (simp_all add: passes_def call_def continue_def)

lemma passes_main_connect:
  "\<not> conn_has_error env \<Longrightarrow> ev_default_ok env \<Longrightarrow> passes (main_connect env)"
  by (simp add: passes_def main_connect_def call_def continue_def Let_def)

lemma passes_main_visual:
  "find_visual_32 env = None \<or> colormap_error env = None \<Longrightarrow> passes (main_visual env)"
  by (auto simp: passes_def main_visual_def continue_def Let_def split: option.splits)

lemma passes_main_atoms: "atom_replies_ok env \<Longrightarrow> passes (main_atoms env)"
  by (simp add: passes_def main_atoms_def call_def continue_def)

lemma passes_main_become_wm:
  "wm_check_error env = None \<Longrightarrow> geometry_reply_ok env \<Longrightarrow> passes (main_become_wm env)"
  by (simp add: passes_def main_become_wm_def continue_def Let_def)

lemma passes_main_keymap: "load_keymap_ok env \<Longrightarrow> passes (main_keymap env)"
  by (simp add: passes_def main_keymap_def call_def continue_def)

lemma main_manage_existing_returns:
  "(\<forall>t e. x_server env t e = []) \<Longrightarrow> \<exists>w'. main_manage_existing env w = Some (Inr w')"
proof -
  assume "\<forall>t e. x_server env t e = []"
  from main_discard_loop_returns[OF this] obtain w1 where
    "main_discard_loop env (xcb_aux_sync (emit XcbGrabServer w)) = Some w1" by blast
  then show ?thesis by (simp add: main_manage_existing_def continue_def)
qed

lemma passes_main_manage_existing:
  "(\<forall>t e. x_server env t e = []) \<Longrightarrow> passes (main_manage_existing env)"
  using main_manage_existing_returns by (simp add: passes_def)

lemma main_enters_loop:
  assumes "\<not> other_fatal env" and "find_visual_32 env = None \<or> colormap_error env = None"
    and "\<forall>t e. x_server env t e = []"
  shows "\<exists>w'. main env opts xcb_fd w = Some (Inr w')"
  unfolding main_def
  apply (rule run_steps_passes)
  using assms
  apply (simp add: other_fatal_def passes_main_connect passes_main_visual passes_main_atoms
      passes_main_become_wm passes_main_keymap passes_main_manage_existing)
  done

lemma run_steps_append:
  "run_steps (xs @ ys) w =
     (case run_steps xs w of None \<Rightarrow> None | Some (Inl dead) \<Rightarrow> Some (Inl dead)
      | Some (Inr w1) \<Rightarrow> run_steps ys w1)"
  by (induction xs arbitrary: w) (auto simp: continue_def split: option.splits sum.splits)

lemma run_steps_append_Inr:
  "run_steps (xs @ ys) w = Some (Inr w') \<Longrightarrow>
     \<exists>w1. run_steps xs w = Some (Inr w1) \<and> run_steps ys w1 = Some (Inr w')"
  by (auto simp: run_steps_append split: option.splits sum.splits)

lemma main_final:
  assumes "main env opts xcb_fd w = Some (Inr w')"
  shows "\<exists>w1. w' = emit EvLoop (atexit AtExit_i3_exit
                 (main_autostart opts (main_signals opts w1)))"
proof -
  let ?tail = "[(\<lambda>w. continue (main_signals opts w)),
        (\<lambda>w. continue (main_autostart opts w)),
        (\<lambda>w. continue (atexit AtExit_i3_exit w)),
        (\<lambda>w. continue (emit EvLoop w))]"
  let ?pre = "[call ''init_logging, core dumps of a debug build'',
        main_connect env,
        call ''xcb_intern_atom (atoms.xmacro)'',
        main_visual env,
        call ''init_dpi, xcb_get_geometry, xcb_query_pointer'',
        main_atoms env,
        call ''config.ipc_socket_path, force_xinerama'',
        main_become_wm env,
        call ''xcursor, xkb, shape, restore_connect, property_handlers_init, ewmh_setup_hints'',
        main_keymap env,
        (\<lambda>w. continue (main_tree env opts w)),
        call ''outputs, scratchpad_fix_resolution, con_activate, tree_render'',
        (\<lambda>w. continue (main_ipc_socket env w)),
        (\<lambda>w. continue (main_socket_activation env w)),
        (\<lambda>w. continue (main_restart_fd env w)),
        call ''x_set_i3_atoms, ewmh_update_workarea, ewmh_update_desktop_properties'',
        (\<lambda>w. continue (main_arm_x11 env xcb_fd w)),
        main_manage_existing env,
        (\<lambda>w. continue (main_root_pixmap opts w))]"
  have m: "main env opts xcb_fd = run_steps (?pre @ ?tail)"
    by (simp add: main_def)
  from assms have "run_steps (?pre @ ?tail) w = Some (Inr w')"
    by (simp only: m)
  from run_steps_append_Inr[OF this]
  obtain w1 where "run_steps ?tail w1 = Some (Inr w')" by blast
  then have "w' = emit EvLoop (atexit AtExit_i3_exit
                 (main_autostart opts (main_signals opts w1)))"
    by (simp add: continue_def call_def)
  then show ?thesis by blast
qed

text \<open>C7, as amended. When the server advertises no 32-bit visual, \<open>main\<close> falls back
  to the root window's depth, its default colormap and its visual, makes no call, and
  goes on; on this path the bootstrap reaches the event loop whenever no other fatal
  condition holds. When the server advertises a 32-bit visual, that visual is preferred:
  its depth is used and a colormap is created for it. When the creation of that colormap
  fails, \<open>main\<close> does not fall back but ends the process with \<open>EXIT_FAILURE\<close>.\<close>

theorem main_visual_negotiation:
  "(find_visual_32 env = None \<longrightarrow>
      main_visual env w =
        continue (w\<lparr>root_depth := screen_root_depth (root_screen env),
                    colormap := default_colormap (root_screen env),
                    visual_type := Some (get_visualtype env (root_screen env))\<rparr>))
   \<and> (find_visual_32 env = Some vt \<and> colormap_error env = None \<longrightarrow>
      main_visual env w =
        continue (w\<lparr>trace := trace w @ [XcbCreateColormap (generated_id env)
                                          (root (root_screen env)) (visual_id vt)],
                    root_depth := depth_of_visual env (visual_id vt),
                    colormap := generated_id env,
                    visual_type := Some vt\<rparr>))
   \<and> (find_visual_32 env = Some vt \<and> colormap_error env = Some error_code \<longrightarrow>
      fate_of (main_visual env w) = Some (Exited EXIT_FAILURE))
   \<and> (find_visual_32 env = None \<and> \<not> other_fatal env \<and> (\<forall>t e. x_server env t e = []) \<longrightarrow>
      (\<exists>w'. main env opts xcb_fd w = Some (Inr w')))"
proof (intro conjI impI)
  assume "find_visual_32 env = None \<and> \<not> other_fatal env \<and> (\<forall>t e. x_server env t e = [])"
  then show "\<exists>w'. main env opts xcb_fd w = Some (Inr w')"
    using main_enters_loop[of env opts xcb_fd w] by blast
qed (simp_all add: main_visual_def continue_def exit_with_def exit_process_def fate_of_def emit_def Let_def)

theorem main_visual_negotiation_witness:
  "find_visual_32 env_plain = None \<and> \<not> other_fatal env_plain
   \<and> (\<forall>t e. x_server env_plain t e = [])
   \<and> main_visual env_plain (initial_world [] Map.empty) =
       continue ((initial_world [] Map.empty)\<lparr>root_depth := 24, colormap := 0x20,
                    visual_type := Some \<lparr>visual_id = 0x21\<rparr>\<rparr>)
   \<and> (\<exists>w'. main env_plain opts_plain 5 (initial_world [] Map.empty) = Some (Inr w'))"
proof -
  have a: "find_visual_32 env_plain = None" "\<not> other_fatal env_plain"
    "\<forall>t e. x_server env_plain t e = []"
    by (simp_all add: env_plain_def other_fatal_def)
  note inst = main_visual_negotiation[of env_plain "initial_world [] Map.empty" _ _ opts_plain 5]
  from inst a have "main_visual env_plain (initial_world [] Map.empty) =
       continue ((initial_world [] Map.empty)\<lparr>root_depth := screen_root_depth (root_screen env_plain),
                    colormap := default_colormap (root_screen env_plain),
                    visual_type := Some (get_visualtype env_plain (root_screen env_plain))\<rparr>)"
    by blast
  then have "main_visual env_plain (initial_world [] Map.empty) =
       continue ((initial_world [] Map.empty)\<lparr>root_depth := 24, colormap := 0x20,
                    visual_type := Some \<lparr>visual_id = 0x21\<rparr>\<rparr>)"
    by (simp add: env_plain_def)
  moreover from inst a have "\<exists>w'. main env_plain opts_plain 5 (initial_world [] Map.empty) = Some (Inr w')"
    by blast
  ultimately show ?thesis using a by blast
qed

text \<open>The claim as stated fails: with a 32-bit visual advertised and the colormap
  refused, the bootstrap ends the process.\<close>

theorem main_exits_without_colormap:
  "find_visual_32 env_no_colormap = Some \<lparr>visual_id = 0x5C\<rparr>
   \<and> fate_of (main env_no_colormap opts_plain 5 (initial_world [] Map.empty)) = Some (Exited 1)"
  by (simp add: env_no_colormap_def env_plain_def main_def main_connect_def main_visual_def
      call_def continue_def exit_with_def exit_process_def fate_of_def emit_def Let_def
      initial_world_def EXIT_FAILURE_def)

section \<open>Restart: the layout snapshot and the descriptor\<close>

lemma long_to_int_in_range:
  fixes v :: "64 word"
  assumes "0 \<le> sint v" "sint v < 2 ^ 31"
  shows "sint (ucast v :: 32 word) = sint v"
proof -
  have "uint v = take_bit 64 (sint v)" by (simp add: uint_sint)
  also have "\<dots> = sint v" using assms by (simp add: take_bit_int_eq_self)
  finally have u: "sint v = uint v" by simp
  with assms have r: "0 \<le> uint v" "uint v < 2 ^ 31" by simp_all
  have "uint (ucast v :: 32 word) = take_bit 32 (uint v)"
    by (simp add: unsigned_ucast_eq)
  also have "\<dots> = uint v" using r by (simp add: take_bit_int_eq_self)
  finally have e: "uint (ucast v :: 32 word) = uint v" .
  have "sint (ucast v :: 32 word) = signed_take_bit 31 (uint (ucast v :: 32 word))"
    by (simp add: sint_uint)
  also have "\<dots> = signed_take_bit 31 (uint v)" using e by simp
  also have "\<dots> = uint v"
  proof (rule signed_take_bit_int_eq_self)
    have "- (2 ^ 31) \<le> (0::int)" by simp
    also have "0 \<le> uint v" by simp
    finally show "- (2 ^ 31) \<le> uint v" .
    show "uint v < 2 ^ 31" by (rule r(2))
  qed
  finally show ?thesis using u by simp
qed

text \<open>C5. With a layout path on the command line, \<open>main\<close> logs, calls \<open>tree_restore\<close>
  on the path, then, when the path is marked for deletion, unlinks the file and removes
  the directory \<open>dirname\<close> gives (whatever \<open>tree_restore\<close> returned, and without
  looking at the results of \<open>unlink\<close> and \<open>rmdir\<close>), and then calls \<open>tree_init\<close> exactly
  when \<open>tree_restore\<close> failed. Nothing else changes, the process does not end here, and
  the bootstrap reaches the event loop under conditions none of which concerns the
  snapshot.\<close>

theorem main_tree_restore:
  "(layout_path opts = Some path \<longrightarrow>
      main_tree env opts w =
        w\<lparr>trace := trace w @ [LOG ''Trying to restore the layout'', TreeRestore path]
                     @ (if delete_layout_path opts
                        then [Unlink path, Rmdir (dirname env path)] else [])
                     @ (if tree_restore env path then [] else [TreeInit])\<rparr>)
   \<and> (layout_path opts = None \<longrightarrow> main_tree env opts w = emit TreeInit w)
   \<and> (\<not> other_fatal env \<and> (find_visual_32 env = None \<or> colormap_error env = None)
        \<and> (\<forall>t e. x_server env t e = []) \<longrightarrow>
        (\<exists>w'. main env opts xcb_fd w = Some (Inr w')))"
proof (intro conjI impI)
  assume "\<not> other_fatal env \<and> (find_visual_32 env = None \<or> colormap_error env = None)
        \<and> (\<forall>t e. x_server env t e = [])"
  then show "\<exists>w'. main env opts xcb_fd w = Some (Inr w')"
    using main_enters_loop[of env opts xcb_fd w] by blast
qed (simp_all add: main_tree_def emit_def Let_def)

theorem main_tree_restore_witness:
  "layout_path opts_plain = Some ''/run/user/1000/i3/restart-state.1234''
   \<and> \<not> tree_restore env_plain ''/run/user/1000/i3/restart-state.1234''
   \<and> \<not> other_fatal env_plain
   \<and> find_visual_32 env_plain = None
   \<and> (\<forall>t e. x_server env_plain t e = [])
   \<and> main_tree env_plain opts_plain (initial_world [] Map.empty) =
        (initial_world [] Map.empty)
          \<lparr>trace := [LOG ''Trying to restore the layout'',
                      TreeRestore ''/run/user/1000/i3/restart-state.1234'',
                      Unlink ''/run/user/1000/i3/restart-state.1234'',
                      Rmdir ''/run/user/1000/i3'', TreeInit]\<rparr>
   \<and> (\<exists>w'. main env_plain opts_plain 5 (initial_world [] Map.empty) = Some (Inr w'))"
proof -
  have a: "layout_path opts_plain = Some ''/run/user/1000/i3/restart-state.1234''"
    "\<not> tree_restore env_plain ''/run/user/1000/i3/restart-state.1234''"
    "\<not> other_fatal env_plain" "find_visual_32 env_plain = None"
    "\<forall>t e. x_server env_plain t e = []"
    by (simp_all add: env_plain_def opts_plain_def other_fatal_def)
  note inst = main_tree_restore[of opts_plain "''/run/user/1000/i3/restart-state.1234''" env_plain
      "initial_world [] Map.empty" 5]
  from inst a have "main_tree env_plain opts_plain (initial_world [] Map.empty) =
        (initial_world [] Map.empty)\<lparr>trace := trace (initial_world [] Map.empty)
                     @ [LOG ''Trying to restore the layout'',
                        TreeRestore ''/run/user/1000/i3/restart-state.1234'']
                     @ (if delete_layout_path opts_plain
                        then [Unlink ''/run/user/1000/i3/restart-state.1234'',
                              Rmdir (dirname env_plain ''/run/user/1000/i3/restart-state.1234'')] else [])
                     @ (if tree_restore env_plain ''/run/user/1000/i3/restart-state.1234''
                        then [] else [TreeInit])\<rparr>"
    by blast
  then have "main_tree env_plain opts_plain (initial_world [] Map.empty) =
        (initial_world [] Map.empty)
          \<lparr>trace := [LOG ''Trying to restore the layout'',
                      TreeRestore ''/run/user/1000/i3/restart-state.1234'',
                      Unlink ''/run/user/1000/i3/restart-state.1234'',
                      Rmdir ''/run/user/1000/i3'', TreeInit]\<rparr>"
    by (simp add: initial_world_def env_plain_def opts_plain_def)
  moreover from inst a have "\<exists>w'. main env_plain opts_plain 5 (initial_world [] Map.empty) = Some (Inr w')"
    by blast
  ultimately show ?thesis using a by blast
qed

text \<open>C6. When \<open>_I3_RESTART_FD\<close> is not set, \<open>main\<close> does nothing for the restart
  descriptor; when it is set and \<open>parse_long\<close> rejects it, \<open>main\<close> only logs the
  malformed value; in neither case is a client registered or a confirmation sent, and
  the process goes on. When the value parses to a descriptor number (a non-negative
  \<open>int\<close>), \<open>main\<close> registers that descriptor with \<open>ipc_new_client_on_fd\<close> and next
  sends the restart confirmation to that client. None of the conditions that end the
  bootstrap concerns the variable.\<close>

theorem main_restart_fd_cases:
  "(getenv env ''_I3_RESTART_FD'' = None \<longrightarrow> main_restart_fd env w = w)
   \<and> (getenv env ''_I3_RESTART_FD'' = Some s \<and> \<not> fst (parse_long env s 10) \<longrightarrow>
        main_restart_fd env w = emit (ELOG ''Malformed _I3_RESTART_FD'') w)
   \<and> (getenv env ''_I3_RESTART_FD'' = Some s \<and> parse_long env s 10 = (True, v)
        \<and> 0 \<le> sint v \<and> sint v < 2 ^ 31 \<longrightarrow>
        main_restart_fd env w =
          w\<lparr>trace := trace w @ [DLOG ''serving restart fd'',
                                 IpcNewClientOnFd (sint v), IpcConfirmRestart (sint v)]\<rparr>)
   \<and> (\<not> other_fatal env \<and> (find_visual_32 env = None \<or> colormap_error env = None)
        \<and> (\<forall>t e. x_server env t e = []) \<longrightarrow>
        (\<exists>w'. main env opts xcb_fd w = Some (Inr w')))"
proof (intro conjI impI)
  assume "\<not> other_fatal env \<and> (find_visual_32 env = None \<or> colormap_error env = None)
        \<and> (\<forall>t e. x_server env t e = [])"
  then show "\<exists>w'. main env opts xcb_fd w = Some (Inr w')"
    using main_enters_loop[of env opts xcb_fd w] by blast
next
  assume "getenv env ''_I3_RESTART_FD'' = None"
  then show "main_restart_fd env w = w"
    by (simp add: main_restart_fd_def parse_restart_fd_def)
next
  assume "getenv env ''_I3_RESTART_FD'' = Some s \<and> \<not> fst (parse_long env s 10)"
  then show "main_restart_fd env w = emit (ELOG ''Malformed _I3_RESTART_FD'') w"
    by (cases "parse_long env s 10") (simp add: main_restart_fd_def parse_restart_fd_def)
next
  assume a: "getenv env ''_I3_RESTART_FD'' = Some s \<and> parse_long env s 10 = (True, v)
        \<and> 0 \<le> sint v \<and> sint v < 2 ^ 31"
  then have "sint (ucast v :: 32 word) = sint v" by (simp add: long_to_int_in_range)
  moreover from a have "sint v \<noteq> - 1" by simp
  ultimately show "main_restart_fd env w =
          w\<lparr>trace := trace w @ [DLOG ''serving restart fd'',
                                 IpcNewClientOnFd (sint v), IpcConfirmRestart (sint v)]\<rparr>"
    using a by (simp add: main_restart_fd_def parse_restart_fd_def emit_def)
qed

theorem main_restart_fd_cases_witness:
  "getenv env_plain ''_I3_RESTART_FD'' = Some ''7'' \<and> parse_long env_plain ''7'' 10 = (True, 7)
   \<and> (0::int) \<le> sint (7 :: 64 word) \<and> sint (7 :: 64 word) < (2::int) ^ 31
   \<and> main_restart_fd env_plain (initial_world [] Map.empty) =
        (initial_world [] Map.empty)\<lparr>trace := [DLOG ''serving restart fd'',
                                 IpcNewClientOnFd 7, IpcConfirmRestart 7]\<rparr>"
proof -
  have a: "getenv env_plain ''_I3_RESTART_FD'' = Some ''7''" "parse_long env_plain ''7'' 10 = (True, 7)"
    "(0::int) \<le> sint (7 :: 64 word)" "sint (7 :: 64 word) < (2::int) ^ 31"
    by (simp_all add: env_plain_def)
  from main_restart_fd_cases[of env_plain "initial_world [] Map.empty" "''7''" 7] a
  have "main_restart_fd env_plain (initial_world [] Map.empty) =
          (initial_world [] Map.empty)\<lparr>trace := trace (initial_world [] Map.empty) @ [DLOG ''serving restart fd'',
                                 IpcNewClientOnFd (sint (7 :: 64 word)), IpcConfirmRestart (sint (7 :: 64 word))]\<rparr>"
    by blast
  then have "main_restart_fd env_plain (initial_world [] Map.empty) =
        (initial_world [] Map.empty)\<lparr>trace := [DLOG ''serving restart fd'',
                                 IpcNewClientOnFd 7, IpcConfirmRestart 7]\<rparr>"
    by (simp add: initial_world_def)
  with a show ?thesis by blast
qed

section \<open>Socket activation\<close>

declare listen_loop.simps [simp del]

lemma clear_cloexec_clear: "int (clear_cloexec fl) AND FD_CLOEXEC = 0"
proof -
  have "0 \<le> int fl AND NOT FD_CLOEXEC" by simp
  then have "int (clear_cloexec fl) = int fl AND NOT FD_CLOEXEC"
    by (simp add: clear_cloexec_def)
  then show ?thesis by (simp add: and.assoc)
qed

lemma fd_flags_listen_on:
  "fd_flags (listen_on f w) g =
     (if g = f then map_option clear_cloexec (fd_flags w f) else fd_flags w g)"
  by (cases "fd_flags w f")
     (simp_all add: listen_on_def fcntl_GETFD_def fcntl_SETFD_def Let_def clear_cloexec_def)

lemma active_listen_on:
  "ev_is_active (main_loop (listen_on f w)) x \<longleftrightarrow>
     ev_is_active (main_loop w) x \<or> x = Ev_io CB_ipc_new_client f EV_READ"
  by (cases "fd_flags w f")
     (auto simp: listen_on_def fcntl_GETFD_def fcntl_SETFD_def Let_def ev_io_start_def
        ev_is_active_def)

lemma fd_flags_listen_loop:
  "fd_flags (listen_loop f bound w) g =
     (if f \<le> g \<and> g < bound then map_option clear_cloexec (fd_flags w g) else fd_flags w g)"
proof (induction f bound w rule: listen_loop.induct)
  case (1 f bound w)
  show ?case
  proof (cases "f < bound")
    case True
    with 1 show ?thesis
      by (subst listen_loop.simps) (auto simp: fd_flags_listen_on)
  next
    case False
    then show ?thesis by (subst listen_loop.simps) auto
  qed
qed

lemma active_listen_loop:
  "ev_is_active (main_loop (listen_loop f bound w)) x \<longleftrightarrow>
     ev_is_active (main_loop w) x
     \<or> (\<exists>g. f \<le> g \<and> g < bound \<and> x = Ev_io CB_ipc_new_client g EV_READ)"
proof (induction f bound w rule: listen_loop.induct)
  case (1 f bound w)
  show ?case
  proof (cases "f < bound")
    case True
    have "(\<exists>g. f \<le> g \<and> g < bound \<and> x = Ev_io CB_ipc_new_client g EV_READ) \<longleftrightarrow>
          x = Ev_io CB_ipc_new_client f EV_READ
          \<or> (\<exists>g. f + 1 \<le> g \<and> g < bound \<and> x = Ev_io CB_ipc_new_client g EV_READ)"
      using True by (auto simp: order_le_less)
    with 1 True show ?thesis
      by (subst listen_loop.simps) (auto simp: active_listen_on)
  next
    case False
    then show ?thesis by (subst listen_loop.simps) auto
  qed
qed

text \<open>C4. With \<open>n\<close> the count \<open>sd_listen_fds\<close> returns: when \<open>n\<close> is zero \<open>main\<close> only
  logs, and registers nothing. When \<open>n\<close> is positive, every descriptor from
  \<open>SD_LISTEN_FDS_START\<close> up to \<open>SD_LISTEN_FDS_START + n\<close> (excluded) is registered with
  the loop as a read watcher with the callback \<open>ipc_new_client\<close>, and when the
  descriptor is open its flags are rewritten with close-on-exec cleared and the other
  bits kept, so that it stays open across \<open>execve\<close>. No other descriptor's flags change
  and no other watcher is registered.\<close>

theorem main_socket_activation_cloexec:
  fixes env :: env and w :: world
  defines "n \<equiv> sd_listen_fds env 0" and "w' \<equiv> main_socket_activation env w"
  shows "(n = 0 \<longrightarrow>
            w' = emit (DLOG ''socket activation: no sockets passed'') (w\<lparr>listen_fds := 0\<rparr>))
   \<and> (0 < n \<and> SD_LISTEN_FDS_START \<le> f \<and> f < SD_LISTEN_FDS_START + n \<longrightarrow>
        ev_is_active (main_loop w') (Ev_io CB_ipc_new_client f EV_READ)
        \<and> (fd_flags w f = Some fl \<longrightarrow>
             fd_flags w' f = Some (clear_cloexec fl)
             \<and> int (clear_cloexec fl) AND FD_CLOEXEC = 0
             \<and> execve_fds (fd_flags w') f = Some (clear_cloexec fl)))
   \<and> (\<not> (0 < n \<and> SD_LISTEN_FDS_START \<le> f \<and> f < SD_LISTEN_FDS_START + n) \<longrightarrow>
        fd_flags w' f = fd_flags w f)
   \<and> (ev_is_active (main_loop w') x \<longrightarrow>
        ev_is_active (main_loop w) x
        \<or> (\<exists>g. 0 < n \<and> SD_LISTEN_FDS_START \<le> g \<and> g < SD_LISTEN_FDS_START + n
                \<and> x = Ev_io CB_ipc_new_client g EV_READ))"
proof (intro conjI impI)
  show "w' = emit (DLOG ''socket activation: no sockets passed'') (w\<lparr>listen_fds := 0\<rparr>)"
    if "n = 0"
    using that by (simp add: w'_def n_def main_socket_activation_def Let_def)
  have pos: "w' = listen_loop SD_LISTEN_FDS_START (SD_LISTEN_FDS_START + n) (w\<lparr>listen_fds := n\<rparr>)"
    if "0 < n"
    using that by (simp add: w'_def n_def main_socket_activation_def Let_def)
  have nonpos: "fd_flags w' = fd_flags w \<and> main_loop w' = main_loop w" if "\<not> 0 < n"
    using that by (simp add: w'_def n_def main_socket_activation_def Let_def)
  {
    assume a: "0 < n \<and> SD_LISTEN_FDS_START \<le> f \<and> f < SD_LISTEN_FDS_START + n"
    with pos show "ev_is_active (main_loop w') (Ev_io CB_ipc_new_client f EV_READ)"
      by (auto simp: active_listen_loop)
    assume b: "fd_flags w f = Some fl"
    with a pos show c: "fd_flags w' f = Some (clear_cloexec fl)"
      by (simp add: fd_flags_listen_loop)
    show d: "int (clear_cloexec fl) AND FD_CLOEXEC = 0" by (rule clear_cloexec_clear)
    from c d show "execve_fds (fd_flags w') f = Some (clear_cloexec fl)"
      by (simp add: execve_fds_def)
  }
  {
    assume "\<not> (0 < n \<and> SD_LISTEN_FDS_START \<le> f \<and> f < SD_LISTEN_FDS_START + n)"
    then show "fd_flags w' f = fd_flags w f"
      using pos nonpos by (cases "0 < n") (auto simp: fd_flags_listen_loop)
  }
  {
    assume "ev_is_active (main_loop w') x"
    then show "ev_is_active (main_loop w) x
        \<or> (\<exists>g. 0 < n \<and> SD_LISTEN_FDS_START \<le> g \<and> g < SD_LISTEN_FDS_START + n
                \<and> x = Ev_io CB_ipc_new_client g EV_READ)"
      using pos nonpos by (cases "0 < n") (auto simp: active_listen_loop)
  }
qed

theorem main_socket_activation_cloexec_witness:
  "0 < sd_listen_fds env_plain 0
   \<and> SD_LISTEN_FDS_START \<le> 4 \<and> 4 < SD_LISTEN_FDS_START + sd_listen_fds env_plain 0
   \<and> fd_flags world_activated 4 = Some 1
   \<and> execve_fds (fd_flags world_activated) 4 = None
   \<and> ev_is_active (main_loop (main_socket_activation env_plain world_activated))
        (Ev_io CB_ipc_new_client 4 EV_READ)
   \<and> fd_flags (main_socket_activation env_plain world_activated) 4 = Some 0
   \<and> execve_fds (fd_flags (main_socket_activation env_plain world_activated)) 4 = Some 0"
proof -
  have a: "0 < sd_listen_fds env_plain 0"
    "SD_LISTEN_FDS_START \<le> 4" "4 < SD_LISTEN_FDS_START + sd_listen_fds env_plain 0"
    "fd_flags world_activated 4 = Some 1"
    "execve_fds (fd_flags world_activated) 4 = None"
    by (simp_all add: env_plain_def SD_LISTEN_FDS_START_def world_activated_def initial_world_def
          execve_fds_def FD_CLOEXEC_def)
  have c: "clear_cloexec 1 = 0" by (simp add: clear_cloexec_def FD_CLOEXEC_def)
  from main_socket_activation_cloexec[where env = env_plain and f = 4 and w = world_activated and fl = 1] a c
  have "ev_is_active (main_loop (main_socket_activation env_plain world_activated))
        (Ev_io CB_ipc_new_client 4 EV_READ)
   \<and> fd_flags (main_socket_activation env_plain world_activated) 4 = Some 0
   \<and> execve_fds (fd_flags (main_socket_activation env_plain world_activated)) 4 = Some 0"
    by simp
  with a show ?thesis by blast
qed

section \<open>Signals\<close>

lemma sigdisp_ev_signal_start:
  "watcher_signum wt \<noteq> s \<Longrightarrow> sigdisp (ev_signal_start w wt) s = sigdisp w s"
  by (cases wt) (simp_all add: ev_signal_start_def watcher_signum_def)

lemma sigdisp_fold_start:
  "\<forall>wt \<in> set wts. watcher_signum wt \<noteq> s \<Longrightarrow>
     sigdisp (fold (\<lambda>wt w'. (let w1 = ev_signal_start w' wt
                   in w1\<lparr>main_loop := ev_unref (main_loop w1)\<rparr>)) wts w) s = sigdisp w s"
  by (induction wts arbitrary: w) (simp_all add: Let_def sigdisp_ev_signal_start)

lemma sigdisp_setup_term_handlers:
  "s \<notin> set [SIGHUP, SIGINT, SIGALRM, SIGTERM, SIGUSR1] \<Longrightarrow>
     sigdisp (setup_term_handlers w) s = sigdisp w s"
  unfolding setup_term_handlers_def
  by (rule sigdisp_fold_start) (auto simp: signal_watchers_def watcher_signum_def)

lemma main_core_handlers_disabled:
  "disable_signalhandler opts \<Longrightarrow>
     main_core_handlers opts w =
       w\<lparr>sigdisp := (sigdisp w)(SIGQUIT := core_action, SIGILL := core_action,
            SIGABRT := core_action, SIGFPE := core_action, SIGSEGV := core_action)\<rparr>"
  by (simp add: main_core_handlers_def sigaction_def SIGQUIT_def SIGILL_def SIGABRT_def
      SIGFPE_def SIGSEGV_def SIGKILL_def SIGSTOP_def)

lemma sigdisp_main_signals:
  "s \<notin> set [SIGHUP, SIGINT, SIGALRM, SIGTERM, SIGUSR1, SIGPIPE] \<Longrightarrow>
     sigdisp (main_signals opts w) s = sigdisp (main_core_handlers opts w) s"
  by (simp add: main_signals_def sigaction_def SIGPIPE_def SIGKILL_def SIGSTOP_def
      sigdisp_setup_term_handlers)

lemma sigdisp_main_signals_SIGPIPE: "sigdisp (main_signals opts w) SIGPIPE = SIG_IGN"
  by (simp add: main_signals_def sigaction_def SIGPIPE_def SIGKILL_def SIGSTOP_def)

lemma deliver_core_action:
  assumes "sigdisp w sig = core_action" and "signal_default sig = Core"
  shows "deliver_signal env sig w =
     Some (Inl (CoreDumped sig,
       w\<lparr>trace := trace w @ (if shmlogname env \<noteq> [] then [ShmUnlink (shmlogname env)] else [])
                     @ [Raise sig],
         sigdisp := (sigdisp w)(sig := SIG_DFL),
         raised := None\<rparr>))"
proof -
  define w1 where "w1 = w\<lparr>sigdisp := (sigdisp w)(sig := SIG_DFL)\<rparr>"
  define w2 where "w2 = handle_core_signal env sig w1"
  have r: "raised w2 = Some sig" by (simp add: w2_def handle_core_signal_def raise_signal_def)
  have s: "sigdisp (w2\<lparr>raised := None\<rparr>) sig = SIG_DFL"
    by (simp add: w2_def w1_def handle_core_signal_def raise_signal_def shm_unlink_def)
  have "deliver_signal env sig w = deliver_signal env sig (w2\<lparr>raised := None\<rparr>)"
    using assms(1) r
    by (subst deliver_signal.simps)
       (simp add: core_action_def run_sighandler_def w2_def w1_def Let_def)
  also have "\<dots> = Some (Inl (CoreDumped sig, w2\<lparr>raised := None\<rparr>))"
    using s assms(2) by (subst deliver_signal.simps) simp
  also have "w2\<lparr>raised := None\<rparr> =
      w\<lparr>trace := trace w @ (if shmlogname env \<noteq> [] then [ShmUnlink (shmlogname env)] else [])
                     @ [Raise sig],
         sigdisp := (sigdisp w)(sig := SIG_DFL),
         raised := None\<rparr>"
    by (simp add: w2_def w1_def handle_core_signal_def raise_signal_def shm_unlink_def emit_def)
  finally show ?thesis .
qed

lemma deliver_default:
  "sigdisp w sig = SIG_DFL \<Longrightarrow>
     deliver_signal env sig w =
       Some (case signal_default sig of Term \<Rightarrow> Inl (Killed sig, w)
             | Core \<Rightarrow> Inl (CoreDumped sig, w) | _ \<Rightarrow> Inr w)"
  by (subst deliver_signal.simps) simp

lemma deliver_ignored: "sigdisp w sig = SIG_IGN \<Longrightarrow> deliver_signal env sig w = Some (Inr w)"
  by (subst deliver_signal.simps) simp

lemma trace_ev_signal_start: "trace (ev_signal_start w wt) = trace w"
  by (cases wt) (simp_all add: ev_signal_start_def)

lemma trace_fold_start:
  "trace (fold (\<lambda>wt w'. (let w1 = ev_signal_start w' wt
                   in w1\<lparr>main_loop := ev_unref (main_loop w1)\<rparr>)) wts w) = trace w"
  by (induction wts arbitrary: w) (simp_all add: Let_def trace_ev_signal_start)

lemma trace_setup_term_handlers: "trace (setup_term_handlers w) = trace w"
  unfolding setup_term_handlers_def by (rule trace_fold_start)

lemma trace_main_signals:
  "trace (main_signals opts w) = trace (main_core_handlers opts w)"
  by (simp add: main_signals_def sigaction_def SIGPIPE_def SIGKILL_def SIGSTOP_def
      trace_setup_term_handlers)

lemma main_core_handlers_enabled:
  "\<not> disable_signalhandler opts \<Longrightarrow>
     main_core_handlers opts w = emit (Call ''setup_signal_handler'') w"
  by (simp add: main_core_handlers_def)

lemma sigdisp_initial: "sigdisp (initial_world a f) s = SIG_DFL"
  by (simp add: initial_world_def)

lemma trace_initial: "trace (initial_world a f) = []"
  by (simp add: initial_world_def)

lemma SIGBUS_other:
  "SIGBUS \<notin> set [SIGHUP, SIGINT, SIGALRM, SIGTERM, SIGUSR1, SIGPIPE]"
  "SIGBUS \<notin> set [SIGQUIT, SIGILL, SIGABRT, SIGFPE, SIGSEGV]"
  "signal_default SIGBUS = Core"
  by (simp_all add: SIGBUS_def SIGHUP_def SIGINT_def SIGALRM_def SIGTERM_def SIGUSR1_def
      SIGPIPE_def SIGQUIT_def SIGILL_def SIGABRT_def SIGFPE_def SIGSEGV_def signal_default_def)

lemma SIGSEGV_other:
  "SIGSEGV \<notin> set [SIGHUP, SIGINT, SIGALRM, SIGTERM, SIGUSR1, SIGPIPE]"
  "signal_default SIGSEGV = Core"
  by (simp_all add: SIGHUP_def SIGINT_def SIGALRM_def SIGTERM_def SIGUSR1_def
      SIGPIPE_def SIGSEGV_def signal_default_def)

lemma sigdisp_core_handlers_other:
  "disable_signalhandler opts \<Longrightarrow> s \<notin> set [SIGQUIT, SIGILL, SIGABRT, SIGFPE, SIGSEGV] \<Longrightarrow>
     sigdisp (main_core_handlers opts w) s = sigdisp w s"
  by (simp add: main_core_handlers_disabled)

text \<open>C9, as amended. \<open>main\<close> installs \<open>handle_core_signal\<close> only when the command
  line disabled the crash dialog, and then for SIGQUIT, SIGILL, SIGABRT, SIGFPE and
  SIGSEGV, signals whose default action is a core dump. For each of these the delivery of
  the signal runs the handler with the disposition already reset to the default; the
  handler unlinks the shared-memory log when there is one, raises the signal again and
  does nothing else; and the raised signal takes its default action, so the process ends
  with a core dump. Without that option \<open>main\<close> installs no handler of its own for
  these signals and calls \<open>setup_signal_handler\<close> instead, a function of sighandler.c
  of which only the call is recorded here. A signal with the default action of a core dump
  that is at its default after the set-up dumps core directly.\<close>

theorem handle_core_signal_reraises:
  "(disable_signalhandler opts \<and> sig \<in> set [SIGQUIT, SIGILL, SIGABRT, SIGFPE, SIGSEGV] \<longrightarrow>
       signal_default sig = Core
     \<and> sigdisp (main_signals opts w) sig = core_action
     \<and> deliver_signal env sig (main_signals opts w) =
         Some (Inl (CoreDumped sig,
           (main_signals opts w)
             \<lparr>trace := trace (main_signals opts w)
                         @ (if shmlogname env \<noteq> [] then [ShmUnlink (shmlogname env)] else [])
                         @ [Raise sig],
              sigdisp := (sigdisp (main_signals opts w))(sig := SIG_DFL),
              raised := None\<rparr>)))
   \<and> (\<not> disable_signalhandler opts \<longrightarrow>
        main_core_handlers opts w = emit (Call ''setup_signal_handler'') w)
   \<and> (signal_default s = Core \<and> sigdisp (main_signals opts w) s = SIG_DFL \<longrightarrow>
        deliver_signal env s (main_signals opts w) =
          Some (Inl (CoreDumped s, main_signals opts w)))"
proof (intro conjI impI)
  assume a: "disable_signalhandler opts \<and> sig \<in> set [SIGQUIT, SIGILL, SIGABRT, SIGFPE, SIGSEGV]"
  then show c: "signal_default sig = Core"
    by (auto simp: signal_default_def SIGQUIT_def SIGILL_def SIGABRT_def SIGFPE_def SIGSEGV_def)
  from a have "sig \<notin> set [SIGHUP, SIGINT, SIGALRM, SIGTERM, SIGUSR1, SIGPIPE]"
    by (auto simp: SIGQUIT_def SIGILL_def SIGABRT_def SIGFPE_def SIGSEGV_def
        SIGHUP_def SIGINT_def SIGALRM_def SIGTERM_def SIGUSR1_def SIGPIPE_def)
  then have "sigdisp (main_signals opts w) sig = sigdisp (main_core_handlers opts w) sig"
    by (rule sigdisp_main_signals)
  also have "\<dots> = core_action"
    using a by (auto simp: main_core_handlers_disabled SIGQUIT_def SIGILL_def SIGABRT_def
        SIGFPE_def SIGSEGV_def)
  finally show d: "sigdisp (main_signals opts w) sig = core_action" .
  show "deliver_signal env sig (main_signals opts w) =
         Some (Inl (CoreDumped sig,
           (main_signals opts w)
             \<lparr>trace := trace (main_signals opts w)
                         @ (if shmlogname env \<noteq> [] then [ShmUnlink (shmlogname env)] else [])
                         @ [Raise sig],
              sigdisp := (sigdisp (main_signals opts w))(sig := SIG_DFL),
              raised := None\<rparr>))"
    by (rule deliver_core_action[OF d c])
next
  assume "\<not> disable_signalhandler opts"
  then show "main_core_handlers opts w = emit (Call ''setup_signal_handler'') w"
    by (rule main_core_handlers_enabled)
next
  assume "signal_default s = Core \<and> sigdisp (main_signals opts w) s = SIG_DFL"
  then show "deliver_signal env s (main_signals opts w) =
          Some (Inl (CoreDumped s, main_signals opts w))"
    by (simp add: deliver_default)
qed

theorem handle_core_signal_reraises_witness:
  "disable_signalhandler opts_plain \<and> SIGSEGV \<in> set [SIGQUIT, SIGILL, SIGABRT, SIGFPE, SIGSEGV]
   \<and> shmlogname env_plain = ''/i3-log-1234''
   \<and> deliver_signal env_plain SIGSEGV (main_signals opts_plain (initial_world [] Map.empty)) =
         Some (Inl (CoreDumped SIGSEGV,
           (main_signals opts_plain (initial_world [] Map.empty))
             \<lparr>trace := trace (main_signals opts_plain (initial_world [] Map.empty))
                         @ [ShmUnlink ''/i3-log-1234'', Raise SIGSEGV],
              sigdisp := (sigdisp (main_signals opts_plain (initial_world [] Map.empty)))
                           (SIGSEGV := SIG_DFL),
              raised := None\<rparr>))
   \<and> signal_default SIGBUS = Core
   \<and> sigdisp (main_signals opts_plain (initial_world [] Map.empty)) SIGBUS = SIG_DFL
   \<and> deliver_signal env_plain SIGBUS (main_signals opts_plain (initial_world [] Map.empty)) =
       Some (Inl (CoreDumped SIGBUS, main_signals opts_plain (initial_world [] Map.empty)))
   \<and> \<not> disable_signalhandler opts_default
   \<and> main_core_handlers opts_default (initial_world [] Map.empty) =
       emit (Call ''setup_signal_handler'') (initial_world [] Map.empty)"
proof -
  have a: "disable_signalhandler opts_plain" "SIGSEGV \<in> set [SIGQUIT, SIGILL, SIGABRT, SIGFPE, SIGSEGV]"
    "shmlogname env_plain = ''/i3-log-1234''"
    by (simp_all add: opts_plain_def env_plain_def)
  have q: "\<not> disable_signalhandler opts_default" by (simp add: opts_default_def)
  note c = SIGBUS_other(3)
  have d: "sigdisp (main_signals opts_plain (initial_world [] Map.empty)) SIGBUS = SIG_DFL"
    by (simp only: sigdisp_main_signals[OF SIGBUS_other(1)]
        sigdisp_core_handlers_other[OF a(1) SIGBUS_other(2)] sigdisp_initial)
  from handle_core_signal_reraises[where opts = opts_plain and sig = SIGSEGV and s = SIGBUS
      and w = "initial_world [] Map.empty" and env = env_plain] a
  have "deliver_signal env_plain SIGSEGV (main_signals opts_plain (initial_world [] Map.empty)) =
         Some (Inl (CoreDumped SIGSEGV,
           (main_signals opts_plain (initial_world [] Map.empty))
             \<lparr>trace := trace (main_signals opts_plain (initial_world [] Map.empty))
                         @ [ShmUnlink ''/i3-log-1234'', Raise SIGSEGV],
              sigdisp := (sigdisp (main_signals opts_plain (initial_world [] Map.empty)))
                           (SIGSEGV := SIG_DFL),
              raised := None\<rparr>))"
    by simp
  moreover from handle_core_signal_reraises[where opts = opts_plain and sig = SIGSEGV
      and s = SIGBUS and w = "initial_world [] Map.empty" and env = env_plain] c d
  have "deliver_signal env_plain SIGBUS (main_signals opts_plain (initial_world [] Map.empty)) =
       Some (Inl (CoreDumped SIGBUS, main_signals opts_plain (initial_world [] Map.empty)))"
    by blast
  moreover from handle_core_signal_reraises[where opts = opts_default
      and w = "initial_world [] Map.empty"] q
  have "main_core_handlers opts_default (initial_world [] Map.empty) =
       emit (Call ''setup_signal_handler'') (initial_world [] Map.empty)"
    by blast
  ultimately show ?thesis using a q c d by blast
qed

text \<open>The claim as stated fails. With the crash dialog disabled and a shared-memory log
  in place, SIGBUS, whose default action is a core dump, is left at its default by
  \<open>main\<close>: its delivery dumps core at once, and nothing is unlinked. And on the default
  command line \<open>main\<close> does not install \<open>handle_core_signal\<close> for SIGSEGV.\<close>

theorem core_handler_not_for_every_core_signal:
  "signal_default SIGBUS = Core
   \<and> shmlogname env_plain = ''/i3-log-1234''
   \<and> disable_signalhandler opts_plain
   \<and> sigdisp (main_signals opts_plain (initial_world [] Map.empty)) SIGBUS = SIG_DFL
   \<and> trace (main_signals opts_plain (initial_world [] Map.empty)) = []
   \<and> deliver_signal env_plain SIGBUS (main_signals opts_plain (initial_world [] Map.empty)) =
       Some (Inl (CoreDumped SIGBUS, main_signals opts_plain (initial_world [] Map.empty)))
   \<and> disable_signalhandler opts_default = False
   \<and> signal_default SIGSEGV = Core
   \<and> main_core_handlers opts_default (initial_world [] Map.empty) =
       emit (Call ''setup_signal_handler'') (initial_world [] Map.empty)
   \<and> sigdisp (main_signals opts_default (initial_world [] Map.empty)) SIGSEGV \<noteq> core_action"
proof (intro conjI)
  have p: "disable_signalhandler opts_plain" by (simp add: opts_plain_def)
  have q: "\<not> disable_signalhandler opts_default" by (simp add: opts_default_def)
  show "signal_default SIGBUS = Core" by (rule SIGBUS_other)
  show "shmlogname env_plain = ''/i3-log-1234''" by (simp add: env_plain_def)
  show "disable_signalhandler opts_plain" by (rule p)
  show b: "sigdisp (main_signals opts_plain (initial_world [] Map.empty)) SIGBUS = SIG_DFL"
    by (simp only: sigdisp_main_signals[OF SIGBUS_other(1)]
        sigdisp_core_handlers_other[OF p SIGBUS_other(2)] sigdisp_initial)
  show "trace (main_signals opts_plain (initial_world [] Map.empty)) = []"
    by (simp add: trace_main_signals main_core_handlers_disabled[OF p] trace_initial)
  show "deliver_signal env_plain SIGBUS (main_signals opts_plain (initial_world [] Map.empty)) =
       Some (Inl (CoreDumped SIGBUS, main_signals opts_plain (initial_world [] Map.empty)))"
    by (simp add: deliver_default[OF b] SIGBUS_other(3))
  show "disable_signalhandler opts_default = False" using q by simp
  show "signal_default SIGSEGV = Core" by (rule SIGSEGV_other)
  show "main_core_handlers opts_default (initial_world [] Map.empty) =
       emit (Call ''setup_signal_handler'') (initial_world [] Map.empty)"
    by (rule main_core_handlers_enabled[OF q])
  show "sigdisp (main_signals opts_default (initial_world [] Map.empty)) SIGSEGV \<noteq> core_action"
    by (simp add: sigdisp_main_signals[OF SIGSEGV_other(1)] main_core_handlers_enabled[OF q]
        emit_def sigdisp_initial core_action_def)
qed

text \<open>C10. After the signal set-up of \<open>main\<close> SIGPIPE is ignored, and it still is when
  \<open>main\<close> enters the event loop (the last thing it does). A write to a client that has
  disconnected then returns \<open>-1\<close> and leaves the process as it was; with the default
  disposition the same write would have killed it.\<close>

theorem sigpipe_ignored:
  "sigdisp (main_signals opts w) SIGPIPE = SIG_IGN
   \<and> write_to_closed_peer env (main_signals opts w) = Some (Inr (- 1, main_signals opts w))
   \<and> (main env opts xcb_fd w0 = Some (Inr w') \<longrightarrow>
        sigdisp w' SIGPIPE = SIG_IGN
        \<and> write_to_closed_peer env w' = Some (Inr (- 1, w'))
        \<and> last (trace w') = EvLoop)
   \<and> (sigdisp w SIGPIPE = SIG_DFL \<longrightarrow>
        write_to_closed_peer env w = Some (Inl (Killed SIGPIPE, w)))"
proof (intro conjI impI)
  show a: "sigdisp (main_signals opts w) SIGPIPE = SIG_IGN" for w
    by (rule sigdisp_main_signals_SIGPIPE)
  show "write_to_closed_peer env (main_signals opts w) = Some (Inr (- 1, main_signals opts w))"
    by (simp add: write_to_closed_peer_def deliver_ignored[OF a])
  {
    assume "main env opts xcb_fd w0 = Some (Inr w')"
    from main_final[OF this] obtain w1 where
      w': "w' = emit EvLoop (atexit AtExit_i3_exit
                 (main_autostart opts (main_signals opts w1)))" by blast
    then show b: "sigdisp w' SIGPIPE = SIG_IGN"
      by (simp add: atexit_def main_autostart_def Let_def a)
    show "write_to_closed_peer env w' = Some (Inr (- 1, w'))"
      by (simp add: write_to_closed_peer_def deliver_ignored[OF b])
    from w' show "last (trace w') = EvLoop" by simp
  }
  {
    assume "sigdisp w SIGPIPE = SIG_DFL"
    then show "write_to_closed_peer env w = Some (Inl (Killed SIGPIPE, w))"
      by (simp add: write_to_closed_peer_def deliver_default signal_default_def SIGPIPE_def)
  }
qed

theorem sigpipe_ignored_witness:
  "sigdisp (initial_world [] Map.empty) SIGPIPE = SIG_DFL
   \<and> write_to_closed_peer env_plain (initial_world [] Map.empty) =
       Some (Inl (Killed SIGPIPE, initial_world [] Map.empty))
   \<and> (\<exists>w'. main env_plain opts_plain 5 (initial_world [] Map.empty) = Some (Inr w')
         \<and> sigdisp w' SIGPIPE = SIG_IGN
         \<and> write_to_closed_peer env_plain w' = Some (Inr (- 1, w'))
         \<and> last (trace w') = EvLoop)"
proof -
  have d: "sigdisp (initial_world [] Map.empty) SIGPIPE = SIG_DFL"
    by (simp add: initial_world_def)
  have "\<not> other_fatal env_plain" "find_visual_32 env_plain = None \<or> colormap_error env_plain = None"
    "\<forall>t e. x_server env_plain t e = []"
    by (simp_all add: env_plain_def other_fatal_def)
  from main_enters_loop[OF this, of opts_plain 5 "initial_world [] Map.empty"]
  obtain w' where m: "main env_plain opts_plain 5 (initial_world [] Map.empty) = Some (Inr w')"
    by blast
  note inst = sigpipe_ignored[where env = env_plain and opts = opts_plain and xcb_fd = 5
      and ?w0.0 = "initial_world [] Map.empty" and w' = w' and w = "initial_world [] Map.empty"]
  from inst m have "sigdisp w' SIGPIPE = SIG_IGN
         \<and> write_to_closed_peer env_plain w' = Some (Inr (- 1, w'))
         \<and> last (trace w') = EvLoop" by blast
  moreover from inst d have "write_to_closed_peer env_plain (initial_world [] Map.empty) =
       Some (Inl (Killed SIGPIPE, initial_world [] Map.empty))" by blast
  ultimately show ?thesis using d m by blast
qed

section \<open>The terminating signals\<close>

lemma world_running_eq:
  "world_running =
     (initial_world [] Map.empty)
       \<lparr>main_loop := \<lparr>prepares = [], ios = [], signals = signal_watchers, pendings = [],
                      activecnt = 0\<rparr>,
        sigdisp := (\<lambda>sig. if sig \<in> set [SIGHUP, SIGINT, SIGALRM, SIGTERM, SIGUSR1]
                          then Sigaction H_ev_sighandler [] else SIG_DFL),
        atexit_fns := [AtExit_i3_exit]\<rparr>"
  by (simp add: world_running_def atexit_def setup_term_handlers_def signal_watchers_def
      ev_signal_start_def ev_is_active_def ev_unref_def initial_world_def Let_def fun_eq_iff
      SIGHUP_def SIGINT_def SIGALRM_def SIGTERM_def SIGUSR1_def)

text \<open>C8. \<open>setup_term_handlers\<close> starts six signal watchers, for SIGHUP, SIGINT,
  SIGALRM, SIGTERM, SIGUSR1 and SIGUSR1 again, and drops the loop reference of each, so
  the loop's reference count is unchanged. A handled signal, SIGTERM say, makes its
  watcher pending; the loop then invokes \<open>handle_term_signal\<close>, which exits with status
  128 plus the signal number, and \<open>exit\<close> runs \<open>i3_exit\<close>: the shared-memory log is
  unlinked when there is one, IPC is shut down, the socket path is unlinked, the display
  is disconnected and the loop destroyed. SIGUSR1 makes two watchers pending. SIGUSR2,
  whose default action is to terminate, has no watcher: it keeps its default disposition
  and kills the process without any of the exit handlers having run.\<close>

theorem term_handlers_miss_SIGUSR2:
  "map watcher_signum (signals (main_loop world_running)) =
       [SIGHUP, SIGINT, SIGALRM, SIGTERM, SIGUSR1, SIGUSR1]
   \<and> activecnt (main_loop world_running) = 0
   \<and> deliver_signal env SIGTERM world_running =
       Some (Inr (with_pending [(Ev_signal 3 CB_handle_term_signal SIGTERM, EV_SIGNAL)]
                    world_running))
   \<and> ev_invoke_pending env
         (with_pending [(Ev_signal 3 CB_handle_term_signal SIGTERM, EV_SIGNAL)] world_running) =
       Some (Inl (Exited (128 + SIGTERM), world_running\<lparr>trace := i3_exit_actions env\<rparr>))
   \<and> deliver_signal env SIGUSR1 world_running =
       Some (Inr (with_pending [(Ev_signal 5 CB_handle_term_signal SIGUSR1, EV_SIGNAL),
                                (Ev_signal 4 CB_handle_term_signal SIGUSR1, EV_SIGNAL)]
                    world_running))
   \<and> signal_default SIGUSR2 = Term
   \<and> sigdisp world_running SIGUSR2 = SIG_DFL
   \<and> deliver_signal env SIGUSR2 world_running = Some (Inl (Killed SIGUSR2, world_running))"
proof (intro conjI)
  show "map watcher_signum (signals (main_loop world_running)) =
       [SIGHUP, SIGINT, SIGALRM, SIGTERM, SIGUSR1, SIGUSR1]"
    by (simp add: world_running_eq signal_watchers_def watcher_signum_def)
  show "activecnt (main_loop world_running) = 0"
    by (simp add: world_running_eq)
  show "deliver_signal env SIGTERM world_running =
       Some (Inr (with_pending [(Ev_signal 3 CB_handle_term_signal SIGTERM, EV_SIGNAL)]
                    world_running))"
    by (subst deliver_signal.simps)
       (simp add: world_running_eq with_pending_def run_sighandler_def queue_events_def
          ev_feed_event_def ev_is_pending_def signal_watchers_def watcher_signum_def initial_world_def
          SIGHUP_def SIGINT_def SIGALRM_def SIGTERM_def SIGUSR1_def)
  show "ev_invoke_pending env
         (with_pending [(Ev_signal 3 CB_handle_term_signal SIGTERM, EV_SIGNAL)] world_running) =
       Some (Inl (Exited (128 + SIGTERM), world_running\<lparr>trace := i3_exit_actions env\<rparr>))"
    by (subst ev_invoke_pending.simps)
       (simp add: world_running_eq with_pending_def invoke_def watcher_cb_def
          handle_term_signal_def exit_process_def run_exit_fn_def i3_exit_def i3_exit_actions_def
          watcher_signum_def emit_def initial_world_def Let_def)
  show "deliver_signal env SIGUSR1 world_running =
       Some (Inr (with_pending [(Ev_signal 5 CB_handle_term_signal SIGUSR1, EV_SIGNAL),
                                (Ev_signal 4 CB_handle_term_signal SIGUSR1, EV_SIGNAL)]
                    world_running))"
    by (subst deliver_signal.simps)
       (simp add: world_running_eq with_pending_def run_sighandler_def queue_events_def
          ev_feed_event_def ev_is_pending_def signal_watchers_def watcher_signum_def initial_world_def
          SIGHUP_def SIGINT_def SIGALRM_def SIGTERM_def SIGUSR1_def)
  show "signal_default SIGUSR2 = Term" by (simp add: signal_default_def SIGUSR2_def)
  show d: "sigdisp world_running SIGUSR2 = SIG_DFL"
    by (simp add: world_running_eq SIGUSR2_def SIGHUP_def SIGINT_def SIGALRM_def SIGTERM_def SIGUSR1_def)
  show "deliver_signal env SIGUSR2 world_running = Some (Inl (Killed SIGUSR2, world_running))"
    using d by (subst deliver_signal.simps) (simp add: signal_default_def SIGUSR2_def)
qed

section \<open>The loop as main leaves it\<close>

lemma run_steps_keeps:
  "list_all (keeps P) steps \<Longrightarrow> run_steps steps w = Some (Inr w') \<Longrightarrow> P w \<Longrightarrow> P w'"
proof (induction steps arbitrary: w)
  case Nil
  then show ?case by (simp add: continue_def)
next
  case (Cons step steps)
  from Cons.prems(2) obtain w1 where s: "step w = Some (Inr w1)"
    and r: "run_steps steps w1 = Some (Inr w')"
    by (auto split: option.splits sum.splits)
  from Cons.prems(1,3) s have "P w1" by (auto simp: keeps_def)
  with Cons.IH[OF _ r] Cons.prems(1) show ?case by simp
qed

lemma keeps_same_loop:
  "(\<And>w w'. step w = Some (Inr w') \<Longrightarrow> main_loop w' = main_loop w) \<Longrightarrow>
     keeps (\<lambda>w. Q (main_loop w)) step"
  by (auto simp: keeps_def)

lemma keeps_call [simp]: "keeps (\<lambda>w. Q (main_loop w)) (call name)"
  by (rule keeps_same_loop) (auto simp: call_def continue_def)

lemma keeps_main_connect [simp]: "keeps (\<lambda>w. Q (main_loop w)) (main_connect env)"
  by (rule keeps_same_loop)
     (auto simp: main_connect_def call_def continue_def exit_with_def Let_def split: if_splits)

lemma keeps_main_visual [simp]: "keeps (\<lambda>w. Q (main_loop w)) (main_visual env)"
  by (rule keeps_same_loop)
     (auto simp: main_visual_def continue_def exit_with_def Let_def split: option.splits)

lemma keeps_main_atoms [simp]: "keeps (\<lambda>w. Q (main_loop w)) (main_atoms env)"
  by (rule keeps_same_loop)
     (auto simp: main_atoms_def call_def continue_def exit_with_def split: if_splits)

lemma keeps_main_become_wm [simp]: "keeps (\<lambda>w. Q (main_loop w)) (main_become_wm env)"
  by (rule keeps_same_loop)
     (auto simp: main_become_wm_def continue_def exit_with_def Let_def
           split: option.splits if_splits)

lemma keeps_main_keymap [simp]: "keeps (\<lambda>w. Q (main_loop w)) (main_keymap env)"
  by (rule keeps_same_loop)
     (auto simp: main_keymap_def call_def continue_def exit_with_def split: if_splits)

lemma keeps_main_tree [simp]:
  "keeps (\<lambda>w. Q (main_loop w)) (\<lambda>w. continue (main_tree env opts w))"
  by (rule keeps_same_loop)
     (auto simp: main_tree_def continue_def Let_def split: option.splits)

lemma keeps_main_restart_fd [simp]:
  "keeps (\<lambda>w. Q (main_loop w)) (\<lambda>w. continue (main_restart_fd env w))"
  by (rule keeps_same_loop)
     (auto simp: main_restart_fd_def parse_restart_fd_def continue_def
           split: option.splits prod.splits if_splits)

lemma keeps_main_root_pixmap [simp]:
  "keeps (\<lambda>w. Q (main_loop w)) (\<lambda>w. continue (main_root_pixmap opts w))"
  by (rule keeps_same_loop) (auto simp: main_root_pixmap_def continue_def)

lemma keeps_main_autostart [simp]:
  "keeps (\<lambda>w. Q (main_loop w)) (\<lambda>w. continue (main_autostart opts w))"
  by (rule keeps_same_loop) (auto simp: main_autostart_def continue_def Let_def)

lemma keeps_atexit [simp]:
  "keeps (\<lambda>w. Q (main_loop w)) (\<lambda>w. continue (atexit f w))"
  by (rule keeps_same_loop) (auto simp: atexit_def continue_def)

lemma keeps_emit [simp]:
  "keeps (\<lambda>w. Q (main_loop w)) (\<lambda>w. continue (emit a w))"
  by (rule keeps_same_loop) (auto simp: continue_def)

lemma keeps_main_manage_existing [simp]:
  "keeps (\<lambda>w. Q (main_loop w)) (main_manage_existing env)"
proof (rule keeps_same_loop)
  fix w w'
  assume "main_manage_existing env w = Some (Inr w')"
  then obtain w1 where l: "main_discard_loop env (xcb_aux_sync (emit XcbGrabServer w)) = Some w1"
    and w': "w' = emit XcbUngrabServer (emit (ManageExistingWindows (root (root_screen env))) w1)"
    by (auto simp: main_manage_existing_def continue_def split: option.splits)
  from main_discard_loop_result[OF l] have "main_loop w1 = main_loop w"
    by (auto simp: xcb_aux_sync_def)
  with w' show "main_loop w' = main_loop w" by simp
qed

lemma unarmed_ev_io_start: "unarmed l \<Longrightarrow> unarmed (ev_io_start l (Ev_io cb f ev))"
  by (auto simp: unarmed_def ev_io_start_def xcb_prepare_def)

lemma keeps_main_ipc_socket [simp]:
  "keeps (\<lambda>w. unarmed (main_loop w)) (\<lambda>w. continue (main_ipc_socket env w))"
  by (auto simp: keeps_def main_ipc_socket_def continue_def Let_def unarmed_ev_io_start)

lemma unarmed_listen_on: "unarmed (main_loop w) \<Longrightarrow> unarmed (main_loop (listen_on f w))"
  by (cases "fd_flags w f")
     (simp_all add: listen_on_def fcntl_GETFD_def fcntl_SETFD_def Let_def unarmed_ev_io_start)

lemma unarmed_listen_loop:
  "unarmed (main_loop w) \<Longrightarrow> unarmed (main_loop (listen_loop f bound w))"
proof (induction f bound w rule: listen_loop.induct)
  case (1 f bound w)
  show ?case
  proof (cases "f < bound")
    case True
    with 1 show ?thesis by (subst listen_loop.simps) (simp add: unarmed_listen_on)
  next
    case False
    with 1 show ?thesis by (subst listen_loop.simps) simp
  qed
qed

lemma keeps_main_socket_activation [simp]:
  "keeps (\<lambda>w. unarmed (main_loop w)) (\<lambda>w. continue (main_socket_activation env w))"
  by (auto simp: keeps_def main_socket_activation_def continue_def Let_def
      intro: unarmed_listen_loop)

lemma armed_main_arm_x11:
  "unarmed (main_loop w) \<Longrightarrow> armed (main_loop (main_arm_x11 env xcb_fd w))"
  by (auto simp: unarmed_def armed_def main_arm_x11_def xcb_flush_def emit_def xcb_watcher_def
      Let_def ev_io_start_def ev_prepare_start_def ev_is_active_def xcb_prepare_def
      split: option.splits)

lemma armed_signal_step:
  "armed (main_loop w) \<Longrightarrow>
     armed (main_loop (let w1 = ev_signal_start w wt
                       in w1\<lparr>main_loop := ev_unref (main_loop w1)\<rparr>))"
  by (cases wt) (auto simp: armed_def ev_signal_start_def ev_unref_def Let_def)

lemma armed_setup_term_handlers:
  "armed (main_loop w) \<Longrightarrow> armed (main_loop (setup_term_handlers w))"
proof -
  have "armed (main_loop w) \<Longrightarrow>
     armed (main_loop (fold (\<lambda>wt w'. (let w1 = ev_signal_start w' wt
                   in w1\<lparr>main_loop := ev_unref (main_loop w1)\<rparr>)) wts w))" for wts
  proof (induction wts arbitrary: w)
    case Nil
    then show ?case by simp
  next
    case (Cons wt wts)
    from armed_signal_step[OF Cons.prems, of wt] Cons.IH show ?case by simp
  qed
  then show "armed (main_loop w) \<Longrightarrow> armed (main_loop (setup_term_handlers w))"
    by (simp add: setup_term_handlers_def)
qed

lemma main_loop_sigaction [simp]: "main_loop (snd (sigaction sig act w)) = main_loop w"
  by (simp add: sigaction_def)

lemma main_loop_sigaction_chain [simp]:
  "main_loop (snd (sigaction_chain sigs act w)) = main_loop w"
proof (induction sigs arbitrary: w)
  case Nil
  then show ?case by simp
next
  case (Cons sig sigs)
  obtain r w1 where s: "sigaction sig act w = (r, w1)" by (cases "sigaction sig act w")
  then have "main_loop w1 = main_loop w" using main_loop_sigaction[of sig act w] by simp
  with s Cons show ?case by simp
qed

lemma main_loop_main_core_handlers [simp]:
  "main_loop (main_core_handlers opts w) = main_loop w"
proof (cases "disable_signalhandler opts")
  case True
  obtain failed w1 where
    c: "sigaction_chain [SIGQUIT, SIGILL, SIGABRT, SIGFPE, SIGSEGV] core_action w = (failed, w1)"
    by (cases "sigaction_chain [SIGQUIT, SIGILL, SIGABRT, SIGFPE, SIGSEGV] core_action w")
  then have "main_loop w1 = main_loop w"
    using main_loop_sigaction_chain[of "[SIGQUIT, SIGILL, SIGABRT, SIGFPE, SIGSEGV]" core_action w]
    by simp
  with True c show ?thesis by (simp add: main_core_handlers_def)
next
  case False
  then show ?thesis by (simp add: main_core_handlers_def)
qed

lemma keeps_main_signals [simp]:
  "keeps (\<lambda>w. armed (main_loop w)) (\<lambda>w. continue (main_signals opts w))"
  by (auto simp: keeps_def continue_def main_signals_def intro: armed_setup_term_handlers)

lemma main_arms_drain:
  assumes "main env opts xcb_fd w = Some (Inr w')" and "unarmed (main_loop w)"
  shows "armed (main_loop w')"
proof -
  let ?pre = "[call ''init_logging, core dumps of a debug build'',
        main_connect env,
        call ''xcb_intern_atom (atoms.xmacro)'',
        main_visual env,
        call ''init_dpi, xcb_get_geometry, xcb_query_pointer'',
        main_atoms env,
        call ''config.ipc_socket_path, force_xinerama'',
        main_become_wm env,
        call ''xcursor, xkb, shape, restore_connect, property_handlers_init, ewmh_setup_hints'',
        main_keymap env,
        (\<lambda>w. continue (main_tree env opts w)),
        call ''outputs, scratchpad_fix_resolution, con_activate, tree_render'',
        (\<lambda>w. continue (main_ipc_socket env w)),
        (\<lambda>w. continue (main_socket_activation env w)),
        (\<lambda>w. continue (main_restart_fd env w)),
        call ''x_set_i3_atoms, ewmh_update_workarea, ewmh_update_desktop_properties'']"
  let ?post = "[main_manage_existing env,
        (\<lambda>w. continue (main_root_pixmap opts w)),
        (\<lambda>w. continue (main_signals opts w)),
        (\<lambda>w. continue (main_autostart opts w)),
        (\<lambda>w. continue (atexit AtExit_i3_exit w)),
        (\<lambda>w. continue (emit EvLoop w))]"
  have m: "main env opts xcb_fd = run_steps (?pre @ [\<lambda>w. continue (main_arm_x11 env xcb_fd w)] @ ?post)"
    by (simp add: main_def)
  from assms(1) have "run_steps (?pre @ [\<lambda>w. continue (main_arm_x11 env xcb_fd w)] @ ?post) w = Some (Inr w')"
    by (simp only: m)
  from run_steps_append_Inr[OF this] obtain w1 where
    p: "run_steps ?pre w = Some (Inr w1)"
    and r: "run_steps ([\<lambda>w. continue (main_arm_x11 env xcb_fd w)] @ ?post) w1 = Some (Inr w')"
    by blast
  from run_steps_append_Inr[OF r] obtain w2 where
    a: "run_steps [\<lambda>w. continue (main_arm_x11 env xcb_fd w)] w1 = Some (Inr w2)"
    and q: "run_steps ?post w2 = Some (Inr w')"
    by blast
  have "list_all (keeps (\<lambda>w. unarmed (main_loop w))) ?pre" by simp
  from run_steps_keeps[OF this p assms(2)] have "unarmed (main_loop w1)" .
  moreover from a have "w2 = main_arm_x11 env xcb_fd w1" by (simp add: continue_def)
  ultimately have "armed (main_loop w2)" by (simp add: armed_main_arm_x11)
  moreover have "list_all (keeps (\<lambda>w. armed (main_loop w))) ?post" by simp
  ultimately show ?thesis using run_steps_keeps[OF _ q] by blast
qed

lemmas ev_invoke_pending_induct =
  ev_invoke_pending.raw_induct[rotated 1, consumes 1, case_names step]

lemma ev_invoke_pending_empties_aux:
  "ev_invoke_pending env w = Some r \<Longrightarrow> \<forall>w'. r = Inr w' \<longrightarrow> pendings (main_loop w') = []"
proof (induction env w r rule: ev_invoke_pending_induct)
  case (step pending env w r)
  show ?case
  proof (cases "pendings (main_loop w)")
    case Nil
    with step.hyps show ?thesis by auto
  next
    case (Cons p ps)
    with step.hyps step.IH show ?thesis
      by (auto split: option.splits sum.splits)
  qed
qed

lemma ev_invoke_pending_empties:
  "ev_invoke_pending env w = Some (Inr w') \<Longrightarrow> pendings (main_loop w') = []"
  using ev_invoke_pending_empties_aux by blast

end
